theory Spec2Isabelle
  imports Main "HOL-Library.Word"
begin

unbundle bit_operations_syntax

section \<open>Machine types and text formatting\<close>

type_synonym u8 = "8 word"
type_synonym u16 = "16 word"
type_synonym u32 = "32 word"

text \<open>
  The decimal digits printed by \<^verbatim>\<open>snprintf\<close>'s \<^verbatim>\<open>%u\<close> and by
  \<^verbatim>\<open>String += int\<close>; \<open>fmt02\<close> is \<^verbatim>\<open>%02u\<close>: at least two digits, padded
  with a zero.
\<close>

definition digit :: "nat \<Rightarrow> char" where
  "digit d = ''0123456789'' ! d"

fun dec :: "nat \<Rightarrow> string" where
  "dec n = (if n < 10 then [digit n] else dec (n div 10) @ [digit (n mod 10)])"

declare dec.simps [simp del]

definition fmt02 :: "nat \<Rightarrow> string" where
  "fmt02 n = (if n < 10 then CHR ''0'' # dec n else dec n)"

text \<open>Reading a decimal numeral back; used to show that distinct indices print differently.\<close>

definition undec :: "string \<Rightarrow> nat" where
  "undec s = foldl (\<lambda>a c. 10 * a + (of_char c - 48)) 0 s"

section \<open>The NVS variants (RFID\_Controller\_Version\_cloud.ino and the first program of unnamed/part\_000)\<close>

text \<open>
  Two programs share almost all of their text. \<open>Cloud\<close> is
  \<^verbatim>\<open>RFID_Controller_Version_cloud.ino\<close> (two RainMaker devices, parameters named
  \<^verbatim>\<open>LT1..LT8\<close> for marks and for relays alike, \<^verbatim>\<open>exitToNormal\<close> resets the marks);
  \<open>Single\<close> is the first program of \<^verbatim>\<open>unnamed/part_000\<close> (one device, parameters
  \<^verbatim>\<open>Mark1..Mark8\<close> and \<^verbatim>\<open>Relay1..Relay8\<close>, \<^verbatim>\<open>exitToNormal\<close> leaves the marks).
\<close>

datatype variant = Cloud | Single

datatype pval = PBool bool | PStr string | PInt int

text \<open>
  What the firmware sends to its collaborators, in order: a parameter report
  (device, parameter, value), the last-access report (the arguments of
  \<^verbatim>\<open>updateLastAccessParam\<close>; the text also holds the wall-clock time), a pin write,
  one \<^verbatim>\<open>buzzOnce\<close> of the given length, and a \<^verbatim>\<open>delay\<close> between beeps.
\<close>

datatype effect =
    Report string string pval
  | ReportLastAccess string bool u8
  | PinWrite nat bool
  | Beep nat
  | Pause nat

record CardEntry =
  uid :: string
  mask :: u8

text \<open>
  The \<^verbatim>\<open>Preferences\<close> library (not part of the repository) as a typed key-value
  store: a getter returns its default when the key is absent or holds another type.
\<close>

datatype nvs_val = UShort u16 | UChar u8 | Str string

type_synonym preferences = "string \<rightharpoonup> nvs_val"

definition getUShort :: "preferences \<Rightarrow> string \<Rightarrow> u16 \<Rightarrow> u16" where
  "getUShort p k d = (case p k of Some (UShort v) \<Rightarrow> v | _ \<Rightarrow> d)"

definition getUChar :: "preferences \<Rightarrow> string \<Rightarrow> u8 \<Rightarrow> u8" where
  "getUChar p k d = (case p k of Some (UChar v) \<Rightarrow> v | _ \<Rightarrow> d)"

definition getString :: "preferences \<Rightarrow> string \<Rightarrow> string \<Rightarrow> string" where
  "getString p k d = (case p k of Some (Str v) \<Rightarrow> v | _ \<Rightarrow> d)"

definition putUShort :: "string \<Rightarrow> u16 \<Rightarrow> preferences \<Rightarrow> preferences" where
  "putUShort k v p = p(k \<mapsto> UShort v)"

definition putUChar :: "string \<Rightarrow> u8 \<Rightarrow> preferences \<Rightarrow> preferences" where
  "putUChar k v p = p(k \<mapsto> UChar v)"

definition putString :: "string \<Rightarrow> string \<Rightarrow> preferences \<Rightarrow> preferences" where
  "putString k v p = p(k \<mapsto> Str v)"

definition remove_key :: "string \<Rightarrow> preferences \<Rightarrow> preferences" where
  "remove_key k p = p(k := None)"

text \<open>
  The globals of the sketch. The fixed arrays \<^verbatim>\<open>mark[8]\<close>, \<^verbatim>\<open>relayState[8]\<close> and
  \<^verbatim>\<open>relayOffAt[8]\<close> are functions of the index; only indices 0..7 are read or
  written. \<^verbatim>\<open>unsigned long\<close> and \<^verbatim>\<open>uint32_t\<close> are 32 bits on the ESP32.
\<close>

record controller =
  cards :: "CardEntry list"
  prefs :: preferences
  statusStr :: string
  addMode :: bool
  removeMode :: bool
  mark :: "nat \<Rightarrow> bool"
  relayState :: "nat \<Rightarrow> bool"
  relayOffAt :: "nat \<Rightarrow> u32"
  modeStartMs :: u32
  trace :: "effect list"

definition MAX_CARDS :: nat where
  "MAX_CARDS = 64"

definition MODE_TIMEOUT_MS :: u32 where
  "MODE_TIMEOUT_MS = 15000"

definition NVS_KEY_COUNT :: string where
  "NVS_KEY_COUNT = ''count''"

definition P_STATUS :: string where "P_STATUS = ''Status''"
definition P_ADD_MODE :: string where "P_ADD_MODE = ''AddMode''"
definition P_REMOVE_MODE :: string where "P_REMOVE_MODE = ''RemoveMode''"
definition P_LISTCARDS :: string where "P_LISTCARDS = ''ListCards''"
definition P_LASTACCESS :: string where "P_LASTACCESS = ''LastAccess''"

fun P_MARK :: "variant \<Rightarrow> nat \<Rightarrow> string" where
  "P_MARK Cloud i = ''LT'' @ dec (i + 1)"
| "P_MARK Single i = ''Mark'' @ dec (i + 1)"

fun P_RELAY :: "variant \<Rightarrow> nat \<Rightarrow> string" where
  "P_RELAY Cloud i = ''LT'' @ dec (i + 1)"
| "P_RELAY Single i = ''Relay'' @ dec (i + 1)"

fun RELAY_PINS :: "variant \<Rightarrow> nat list" where
  "RELAY_PINS Cloud = [21, 12, 25, 26, 13, 14, 33, 32]"
| "RELAY_PINS Single = [21, 22, 25, 26, 13, 14, 33, 32]"

fun RELAY_ACTIVE_HIGH :: "variant \<Rightarrow> bool" where
  "RELAY_ACTIVE_HIGH Cloud = False"
| "RELAY_ACTIVE_HIGH Single = True"

text \<open>The device that owns the mode, mark and text parameters, and the one that owns the relays.\<close>

definition rfid_dev :: string where
  "rfid_dev = ''RFID_Controller''"

fun relay_dev :: "variant \<Rightarrow> string" where
  "relay_dev Cloud = ''Relay_Controller''"
| "relay_dev Single = ''RFID_Controller''"

definition emit :: "effect list \<Rightarrow> controller \<Rightarrow> controller" where
  "emit os s = s\<lparr>trace := trace s @ os\<rparr>"

subsection \<open>Buzzer patterns\<close>

definition buzzer_add :: "effect list" where
  "buzzer_add = [Beep 120, Pause 60, Beep 60]"

definition buzzer_remove :: "effect list" where
  "buzzer_remove = [Beep 60, Pause 60, Beep 60]"

definition buzzer_granted :: "effect list" where
  "buzzer_granted = [Beep 200]"

definition buzzer_denied :: "effect list" where
  "buzzer_denied = [Beep 60]"

definition buzzer_timeout3 :: "effect list" where
  "buzzer_timeout3 = [Beep 60, Pause 80, Beep 60, Pause 80, Beep 60]"

subsection \<open>Relays\<close>

text \<open>
  \<^verbatim>\<open>setRelay\<close> ignores an index outside 0..7 (the callers pass loop indices, never a
  negative one). \<^verbatim>\<open>pulseRelayAutoOff\<close> takes the reading of \<^verbatim>\<open>millis()\<close> at the
  call as \<open>t\<close>; the sum wraps at 32 bits.
\<close>

definition setRelay :: "variant \<Rightarrow> nat \<Rightarrow> bool \<Rightarrow> controller \<Rightarrow> controller" where
  "setRelay v idx on s =
     (if idx \<ge> 8 then s
      else emit [PinWrite (RELAY_PINS v ! idx) (if RELAY_ACTIVE_HIGH v then on else \<not> on),
                 Report (relay_dev v) (P_RELAY v idx) (PBool on)]
             (s\<lparr>relayState := (relayState s)(idx := on)\<rparr>))"

definition pulseRelayAutoOff :: "variant \<Rightarrow> nat \<Rightarrow> u32 \<Rightarrow> u32 \<Rightarrow> controller \<Rightarrow> controller" where
  "pulseRelayAutoOff v idx ms t s =
     (let s1 = setRelay v idx True s
      in s1\<lparr>relayOffAt := (relayOffAt s1)(idx := t + ms)\<rparr>)"

subsection \<open>Card list\<close>

definition findCardIndex :: "CardEntry list \<Rightarrow> string \<Rightarrow> int" where
  "findCardIndex cs u =
     (case List.find (\<lambda>i. uid (cs ! i) = u) [0..<length cs] of
        None \<Rightarrow> - 1 | Some i \<Rightarrow> int i)"

definition currentMarkMask :: "(nat \<Rightarrow> bool) \<Rightarrow> u8" where
  "currentMarkMask mk = fold (\<lambda>i m. if mk i then m OR push_bit i 1 else m) [0..<8] 0"

definition maskToList :: "u8 \<Rightarrow> string" where
  "maskToList m =
     (let (s, first) =
        fold (\<lambda>i (s, first).
                if m AND push_bit i 1 \<noteq> 0
                then ((if first then s else s @ '','') @ ''R'' @ dec (i + 1), False)
                else (s, first))
             [0..<8] ([], True)
      in if first then ''-'' else s)"

definition buildListCardsText :: "CardEntry list \<Rightarrow> string" where
  "buildListCardsText cs =
     fold (\<lambda>i s. s @ uid (cs ! i) @ ''  ['' @ maskToList (mask (cs ! i)) @ '']''
                   @ (if i \<noteq> length cs - 1 then [CHR 0x0A] else []))
          [0..<length cs] []"

definition updateStatus :: "string \<Rightarrow> controller \<Rightarrow> controller" where
  "updateStatus st s = emit [Report rfid_dev P_STATUS (PStr st)] (s\<lparr>statusStr := st\<rparr>)"

definition updateListCardsParam :: "controller \<Rightarrow> controller" where
  "updateListCardsParam s =
     emit [Report rfid_dev P_LISTCARDS (PStr (buildListCardsText (cards s)))] s"

definition updateLastAccessParam :: "string \<Rightarrow> bool \<Rightarrow> u8 \<Rightarrow> controller \<Rightarrow> controller" where
  "updateLastAccessParam u granted m s = emit [ReportLastAccess u granted m] s"

subsection \<open>NVS save and load\<close>

text \<open>The keys \<^verbatim>\<open>snprintf(ku, sizeof(ku), "u%02u", i)\<close> and \<^verbatim>\<open>"m%02u"\<close>.\<close>

definition key_u :: "nat \<Rightarrow> string" where
  "key_u i = CHR ''u'' # fmt02 i"

definition key_m :: "nat \<Rightarrow> string" where
  "key_m i = CHR ''m'' # fmt02 i"

definition saveCardsToNVS :: "CardEntry list \<Rightarrow> preferences \<Rightarrow> preferences" where
  "saveCardsToNVS cs p =
     (let prev = unat (getUShort p NVS_KEY_COUNT 0);
          cnt = (if length cs > MAX_CARDS then MAX_CARDS else length cs);
          p1 = putUShort NVS_KEY_COUNT (of_nat cnt) p;
          p2 = fold (\<lambda>i q. putUChar (key_m i) (mask (cs ! i))
                              (putString (key_u i) (uid (cs ! i)) q)) [0..<cnt] p1
      in fold (\<lambda>i q. remove_key (key_m i) (remove_key (key_u i) q)) [cnt..<prev] p2)"

definition loadCardsFromNVS :: "preferences \<Rightarrow> CardEntry list" where
  "loadCardsFromNVS p =
     (let cnt = min (unat (getUShort p NVS_KEY_COUNT 0)) MAX_CARDS
      in fold (\<lambda>i cs.
                 let u = getString p (key_u i) [];
                     m = getUChar p (key_m i) 0
                 in if length u \<noteq> 0 then cs @ [\<lparr>uid = u, mask = m\<rparr>] else cs)
              [0..<cnt] [])"

subsection \<open>Mode helpers\<close>

text \<open>\<open>t\<close> is the reading of \<^verbatim>\<open>millis()\<close> when the mode is entered.\<close>

definition enterAddMode :: "u32 \<Rightarrow> controller \<Rightarrow> controller" where
  "enterAddMode t s =
     updateStatus ''ADD_MODE'' (s\<lparr>addMode := True, removeMode := False, modeStartMs := t\<rparr>)"

definition enterRemoveMode :: "u32 \<Rightarrow> controller \<Rightarrow> controller" where
  "enterRemoveMode t s =
     updateStatus ''REMOVE_MODE'' (s\<lparr>removeMode := True, addMode := False, modeStartMs := t\<rparr>)"

text \<open>
  \<^verbatim>\<open>exitToNormal\<close>: both programs clear the two mode flags and report status and
  switches; only \<open>Cloud\<close> has the loop that resets and reports the eight marks.
\<close>

definition exitToNormal :: "variant \<Rightarrow> bool \<Rightarrow> controller \<Rightarrow> controller" where
  "exitToNormal v fromTimeout s =
     (let s1 = updateStatus ''NORMAL'' (s\<lparr>addMode := False, removeMode := False\<rparr>);
          s2 = emit [Report rfid_dev P_ADD_MODE (PBool False),
                     Report rfid_dev P_REMOVE_MODE (PBool False)] s1;
          s3 = (case v of
                  Cloud \<Rightarrow>
                    fold (\<lambda>i q. emit [Report rfid_dev (P_MARK v i) (PBool False)]
                                   (q\<lparr>mark := (mark q)(i := False)\<rparr>)) [0..<8] s2
                | Single \<Rightarrow> s2)
      in if fromTimeout then emit buzzer_timeout3 s3 else s3)"

subsection \<open>The parameter write callback\<close>

text \<open>
  \<open>dev\<close> is the device the written parameter belongs to (the callback reports back
  through the parameter itself and never looks at the device), \<open>pname\<close> the parameter
  name, \<open>b\<close> the written boolean, \<open>t\<close> the reading of \<^verbatim>\<open>millis()\<close> during the call.
  The name is compared with \<^verbatim>\<open>strcmp\<close> in the order of the source: mode switches,
  marks, relays, read-only parameters.
\<close>

definition write_callback ::
  "variant \<Rightarrow> string \<Rightarrow> string \<Rightarrow> bool \<Rightarrow> u32 \<Rightarrow> controller \<Rightarrow> controller" where
  "write_callback v dev pname b t s =
     (if pname = P_ADD_MODE then
        emit [Report dev pname (PBool b)]
          (if b then enterAddMode t s else exitToNormal v False s)
      else if pname = P_REMOVE_MODE then
        emit [Report dev pname (PBool b)]
          (if b then enterRemoveMode t s else exitToNormal v False s)
      else
        (case List.find (\<lambda>i. pname = P_MARK v i) [0..<8] of
           Some i \<Rightarrow> emit [Report dev pname (PBool b)] (s\<lparr>mark := (mark s)(i := b)\<rparr>)
         | None \<Rightarrow>
            (case List.find (\<lambda>i. pname = P_RELAY v i) [0..<8] of
               Some i \<Rightarrow>
                 emit [Report dev pname (PBool b)]
                   (if b then pulseRelayAutoOff v i 5000 t s
                    else (let s1 = setRelay v i False s
                          in s1\<lparr>relayOffAt := (relayOffAt s1)(i := 0)\<rparr>))
             | None \<Rightarrow>
                 (let s1 = (if pname = P_STATUS
                            then emit [Report dev pname (PStr (statusStr s))] s else s)
                  in if pname = P_LISTCARDS
                     then emit [Report dev pname (PStr (buildListCardsText (cards s1)))] s1
                     else s1))))"

subsection \<open>The main loop\<close>

text \<open>
  The auto-off sweep at the head of \<^verbatim>\<open>loop\<close>; \<open>now\<close> is its reading of \<^verbatim>\<open>millis()\<close>.
  \<open>due\<close> is the test \<^verbatim>\<open>relayOffAt[i] && (int32_t)(now - relayOffAt[i]) >= 0\<close>.
\<close>

definition due :: "u32 \<Rightarrow> u32 \<Rightarrow> bool" where
  "due now offAt = (offAt \<noteq> 0 \<and> 0 \<le> sint (now - offAt))"

definition loop_sweep :: "variant \<Rightarrow> u32 \<Rightarrow> controller \<Rightarrow> controller" where
  "loop_sweep v now s =
     fold (\<lambda>i q. if due now (relayOffAt q i)
                 then (let q1 = setRelay v i False q
                       in q1\<lparr>relayOffAt := (relayOffAt q1)(i := 0)\<rparr>)
                 else q) [0..<8] s"

definition loop_timeout :: "variant \<Rightarrow> u32 \<Rightarrow> controller \<Rightarrow> controller" where
  "loop_timeout v now s =
     (if (addMode s \<or> removeMode s) \<and> now - modeStartMs s \<ge> MODE_TIMEOUT_MS
      then exitToNormal v True s else s)"

text \<open>
  The body run when the reader has delivered a card: \<open>u\<close> is \<^verbatim>\<open>uidToString(mfrc522.uid)\<close>,
  \<open>clk i\<close> the reading of \<^verbatim>\<open>millis()\<close> inside the pulse of channel \<open>i\<close>. The three
  branches of the source are named \<open>scan_add\<close>, \<open>scan_remove\<close> (both up to the closing
  call of \<^verbatim>\<open>exitToNormal(false)\<close>) and \<open>scan_normal\<close>; each starts from
  \<^verbatim>\<open>idx = findCardIndex(uid)\<close>, which the source computes once before branching.
\<close>

definition scan_add :: "string \<Rightarrow> controller \<Rightarrow> controller" where
  "scan_add u s =
     (let idx = findCardIndex (cards s) u;
          m = currentMarkMask (mark s);
          s1 = (if idx \<ge> 0
                then s\<lparr>cards := (cards s)[nat idx := (cards s ! nat idx)\<lparr>mask := m\<rparr>]\<rparr>
                else if int (length (cards s)) < int MAX_CARDS
                then s\<lparr>cards := cards s @ [\<lparr>uid = u, mask = m\<rparr>]\<rparr>
                else s);
          s2 = s1\<lparr>prefs := saveCardsToNVS (cards s1) (prefs s1)\<rparr>;
          s3 = updateListCardsParam s2;
          s4 = updateLastAccessParam u True m s3
      in emit buzzer_add s4)"

definition scan_remove :: "string \<Rightarrow> controller \<Rightarrow> controller" where
  "scan_remove u s =
     (let idx = findCardIndex (cards s) u in
      if idx \<ge> 0
      then (let a = s\<lparr>cards := take (nat idx) (cards s) @ drop (nat idx + 1) (cards s)\<rparr>;
                b = a\<lparr>prefs := saveCardsToNVS (cards a) (prefs a)\<rparr>;
                c = updateListCardsParam b;
                d = updateLastAccessParam u True 0 c
            in emit buzzer_remove d)
      else emit buzzer_denied (updateLastAccessParam u False 0 s))"

definition scan_normal :: "variant \<Rightarrow> string \<Rightarrow> (nat \<Rightarrow> u32) \<Rightarrow> controller \<Rightarrow> controller" where
  "scan_normal v u clk s =
     (let idx = findCardIndex (cards s) u in
      if idx \<ge> 0 \<and> mask (cards s ! nat idx) \<noteq> 0 then
        (let m = mask (cards s ! nat idx);
             s1 = fold (\<lambda>i q. if m AND push_bit i 1 \<noteq> 0
                               then pulseRelayAutoOff v i 5000 (clk i) q else q) [0..<8] s;
             s2 = updateLastAccessParam u True m s1
         in emit buzzer_granted s2)
      else emit buzzer_denied (updateLastAccessParam u False 0 s))"

definition loop_scan :: "variant \<Rightarrow> string \<Rightarrow> (nat \<Rightarrow> u32) \<Rightarrow> controller \<Rightarrow> controller" where
  "loop_scan v u clk s =
     (if addMode s then exitToNormal v False (scan_add u s)
      else if removeMode s then exitToNormal v False (scan_remove u s)
      else scan_normal v u clk s)"

text \<open>One pass of \<^verbatim>\<open>loop\<close>: sweep, mode timeout, then the scan if the reader has one.\<close>

definition loop :: "variant \<Rightarrow> u32 \<Rightarrow> (string \<times> (nat \<Rightarrow> u32)) option \<Rightarrow> controller \<Rightarrow> controller" where
  "loop v now scan s =
     (let s1 = loop_sweep v now s;
          s2 = loop_timeout v now s1
      in case scan of None \<Rightarrow> s2 | Some (u, clk) \<Rightarrow> loop_scan v u clk s2)"

text \<open>The state the start-up routine leaves behind, for the card store \<open>p\<close> found at power-up.\<close>

definition power_up :: "variant \<Rightarrow> preferences \<Rightarrow> controller" where
  "power_up v p =
     updateListCardsParam
       (fold (\<lambda>i q. setRelay v i False q) [0..<8]
          \<lparr>cards = loadCardsFromNVS p, prefs = p, statusStr = ''NORMAL'',
           addMode = False, removeMode = False, mark = (\<lambda>_. False),
           relayState = (\<lambda>_. False), relayOffAt = (\<lambda>_. 0), modeStartMs = 0,
           trace = []\<rparr>)"

section \<open>The EEPROM variant (RFID\_V1.0.2.ino)\<close>

text \<open>
  The card database lives in a byte-addressed EEPROM: byte 0 is the card count, the
  cards follow in slots of \<open>CARD_SLOT_BYTES\<close> bytes, then the log region. The definitions
  that the two families of sketches both have carry the suffix \<open>_eeprom\<close> here.
\<close>

definition CARD_START_ADDR :: nat where "CARD_START_ADDR = 1"
definition CARD_SLOT_BYTES :: nat where "CARD_SLOT_BYTES = 16"
definition MAX_CARDS_eeprom :: nat where "MAX_CARDS_eeprom = 80"
definition LOG_START_ADDR :: nat where
  "LOG_START_ADDR = CARD_START_ADDR + CARD_SLOT_BYTES * MAX_CARDS_eeprom"
definition LOG_ENTRY_BYTES :: nat where "LOG_ENTRY_BYTES = 12"
definition MAX_LOGS :: nat where "MAX_LOGS = 40"
definition RFID_MODE_TIMEOUT_MS :: u32 where "RFID_MODE_TIMEOUT_MS = 30000"
definition RELAY9_AUTO_OFF_MS :: u32 where "RELAY9_AUTO_OFF_MS = 5000"
definition RFID_MANAGER_NAME :: string where "RFID_MANAGER_NAME = ''RFID Manager''"
definition RELAY9_PIN :: nat where "RELAY9_PIN = 33"
definition RelayPin :: "nat list" where "RelayPin = [21, 12, 13, 14, 25, 26, 27, 32]"

text \<open>The device names \<^verbatim>\<open>Switch1\<close> .. \<^verbatim>\<open>Switch8\<close> of \<^verbatim>\<open>my_switch[i]\<close>.\<close>

definition switch_name :: "nat \<Rightarrow> string" where
  "switch_name i = ''Switch'' @ dec (i + 1)"

type_synonym eeprom_bytes = "nat \<Rightarrow> u8"

record LogEntry =
  ts :: u32
  event :: u8
  uidIndex :: u8
  shortUid :: "u8 list"

record manager =
  eeprom :: eeprom_bytes
  toggleState :: "nat \<Rightarrow> bool"
  rfidAddMode :: bool
  rfidRemoveMode :: bool
  rfidModeExpireAt :: u32
  relay9_state :: bool
  relay9_on_at :: u32
  logs :: "nat \<Rightarrow> LogEntry"
  logCount :: nat
  logPos :: nat
  lastReport :: u32
  sent :: "effect list"

definition emit_eeprom :: "effect list \<Rightarrow> manager \<Rightarrow> manager" where
  "emit_eeprom os s = s\<lparr>sent := sent s @ os\<rparr>"

subsection \<open>Card slots\<close>

text \<open>
  \<^verbatim>\<open>storeCardSlot\<close> writes exactly \<open>CARD_SLOT_BYTES\<close> bytes: the characters of the
  identifier while there are any, zeros after them. \<^verbatim>\<open>readCardSlot\<close> reads up to
  \<open>CARD_SLOT_BYTES\<close> bytes and stops at the first zero.
\<close>

definition storeCardSlot :: "nat \<Rightarrow> string \<Rightarrow> eeprom_bytes \<Rightarrow> eeprom_bytes" where
  "storeCardSlot idx u e =
     (let base = CARD_START_ADDR + idx * CARD_SLOT_BYTES
      in fold (\<lambda>i m. m(base + i := (if i < length u then of_char (u ! i) else 0)))
              [0..<CARD_SLOT_BYTES] e)"

fun readBytes :: "eeprom_bytes \<Rightarrow> nat \<Rightarrow> nat \<Rightarrow> string" where
  "readBytes e a 0 = []"
| "readBytes e a (Suc n) =
     (let b = e a in if b = 0 then [] else char_of (unat b) # readBytes e (Suc a) n)"

definition readCardSlot :: "nat \<Rightarrow> eeprom_bytes \<Rightarrow> string" where
  "readCardSlot idx e = readBytes e (CARD_START_ADDR + idx * CARD_SLOT_BYTES) CARD_SLOT_BYTES"

definition getCardCount :: "eeprom_bytes \<Rightarrow> nat" where
  "getCardCount e = unat (e 0)"

definition setCardCount :: "nat \<Rightarrow> eeprom_bytes \<Rightarrow> eeprom_bytes" where
  "setCardCount c e = e(0 := of_nat c)"

definition findCardIndex_eeprom :: "eeprom_bytes \<Rightarrow> string \<Rightarrow> int" where
  "findCardIndex_eeprom e u =
     (case List.find (\<lambda>i. readCardSlot i e = u) [0..<getCardCount e] of
        None \<Rightarrow> - 1 | Some i \<Rightarrow> int i)"

definition addCard :: "string \<Rightarrow> eeprom_bytes \<Rightarrow> eeprom_bytes \<times> int" where
  "addCard u e =
     (if length u = 0 then (e, - 1)
      else let idx = findCardIndex_eeprom e u in
        if idx \<ge> 0 then (e, idx)
        else let cnt = getCardCount e in
          if cnt \<ge> MAX_CARDS_eeprom then (e, - 1)
          else (setCardCount (cnt + 1) (storeCardSlot cnt u e), int cnt))"

definition removeCard :: "string \<Rightarrow> eeprom_bytes \<Rightarrow> eeprom_bytes \<times> bool" where
  "removeCard u e =
     (let idx = findCardIndex_eeprom e u in
      if idx < 0 then (e, False)
      else let cnt = getCardCount e;
               e1 = fold (\<lambda>i m. storeCardSlot i (readCardSlot (i + 1) m) m) [nat idx..<cnt - 1] e;
               lastBase = CARD_START_ADDR + (cnt - 1) * CARD_SLOT_BYTES;
               e2 = fold (\<lambda>i m. m(lastBase + i := 0)) [0..<CARD_SLOT_BYTES] e1
           in (setCardCount (cnt - 1) e2, True))"

subsection \<open>The log ring\<close>

text \<open>\<open>t\<close> is the reading of \<^verbatim>\<open>millis()\<close> inside \<^verbatim>\<open>pushLog\<close>.\<close>

definition pushLog :: "u8 \<Rightarrow> int \<Rightarrow> string \<Rightarrow> u32 \<Rightarrow> manager \<Rightarrow> manager" where
  "pushLog ev idx u t s =
     (let tsv = t div 1000;
          ui = (if idx < 0 then 255 else of_int idx);
          su = map (\<lambda>i. if i < 5 \<and> i < length u then of_char (u ! i) else 0) [0..<6];
          le = \<lparr>ts = tsv, event = ev, uidIndex = ui, shortUid = su\<rparr>;
          lg = (logs s)(logPos s := le);
          pos = (logPos s + 1) mod MAX_LOGS;
          cnt = (if logCount s < MAX_LOGS then logCount s + 1 else logCount s);
          slot = (if pos = 0 then MAX_LOGS - 1 else pos - 1);
          eaddr = LOG_START_ADDR + slot * LOG_ENTRY_BYTES;
          e1 = (eeprom s)
                 (eaddr := ucast (drop_bit 24 tsv AND 0xFF),
                  eaddr + 1 := ucast (drop_bit 16 tsv AND 0xFF),
                  eaddr + 2 := ucast (drop_bit 8 tsv AND 0xFF),
                  eaddr + 3 := ucast (tsv AND 0xFF),
                  eaddr + 4 := ev,
                  eaddr + 5 := ui);
          e2 = fold (\<lambda>i m. m(eaddr + 6 + i := (if i < 5 then su ! i else 0))) [0..<6] e1
      in s\<lparr>eeprom := e2, logs := lg, logPos := pos, logCount := cnt\<rparr>)"

subsection \<open>Relays and buzzer\<close>

definition writeEEPROMRelayState :: "nat \<Rightarrow> bool \<Rightarrow> eeprom_bytes \<Rightarrow> eeprom_bytes" where
  "writeEEPROMRelayState addr state e = e(100 + addr := (if state then 1 else 0))"

definition setRelay_eeprom :: "nat \<Rightarrow> nat \<Rightarrow> bool \<Rightarrow> manager \<Rightarrow> manager" where
  "setRelay_eeprom pin addr state s =
     emit_eeprom [PinWrite pin (\<not> state)]
       (s\<lparr>eeprom := writeEEPROMRelayState addr state (eeprom s)\<rparr>)"

definition setRelay9 :: "bool \<Rightarrow> manager \<Rightarrow> manager" where
  "setRelay9 state s =
     emit_eeprom [PinWrite RELAY9_PIN (\<not> state)]
       (s\<lparr>relay9_state := state, eeprom := writeEEPROMRelayState 8 state (eeprom s)\<rparr>)"

definition buzz :: "nat \<Rightarrow> nat \<Rightarrow> effect list" where
  "buzz n duration = concat (replicate n [Beep duration, Pause duration])"

subsection \<open>RainMaker parameters\<close>

definition buildCardListJSON :: "eeprom_bytes \<Rightarrow> string" where
  "buildCardListJSON e =
     (let (json, first) =
        fold (\<lambda>i (json, first).
                let u = readCardSlot i e in
                if length u \<noteq> 0
                then ((if first then json else json @ '','') @ [CHR 0x22] @ u @ [CHR 0x22], False)
                else (json, first))
             [0..<getCardCount e] (''['', True)
      in json @ '']'')"

text \<open>
  The written value is a C union; \<open>val_i\<close> and \<open>val_b\<close> are its integer and boolean
  members. RainMaker delivers an integer for \<^verbatim>\<open>Mode\<close> and a boolean for \<^verbatim>\<open>Power\<close>.
\<close>

fun val_i :: "pval \<Rightarrow> int" where
  "val_i (PInt i) = i"
| "val_i (PBool b) = (if b then 1 else 0)"
| "val_i (PStr _) = 0"

fun val_b :: "pval \<Rightarrow> bool" where
  "val_b (PBool b) = b"
| "val_b (PInt i) = (i \<noteq> 0)"
| "val_b (PStr _) = False"

text \<open>\<open>t\<close> is the reading of \<^verbatim>\<open>millis()\<close> during the call.\<close>

definition write_callback_eeprom ::
  "string \<Rightarrow> string \<Rightarrow> pval \<Rightarrow> u32 \<Rightarrow> manager \<Rightarrow> manager" where
  "write_callback_eeprom device_name param_name val t s =
     (if device_name = RFID_MANAGER_NAME \<and> param_name = ''Mode'' then
        (let v = val_i val;
             s1 = (if v = 1 then
                     s\<lparr>rfidAddMode := True, rfidRemoveMode := False,
                       rfidModeExpireAt := t + RFID_MODE_TIMEOUT_MS\<rparr>
                   else if v = 2 then
                     s\<lparr>rfidRemoveMode := True, rfidAddMode := False,
                       rfidModeExpireAt := t + RFID_MODE_TIMEOUT_MS\<rparr>
                   else s\<lparr>rfidAddMode := False, rfidRemoveMode := False\<rparr>)
         in emit_eeprom [Report device_name ''Mode'' (PInt v)] s1)
      else if param_name = ''Power'' then
        (let newState = val_b val in
         case List.find (\<lambda>i. device_name = switch_name i) [0..<8] of
           Some i \<Rightarrow>
             (let s1 = setRelay_eeprom (RelayPin ! i) i newState s;
                  s2 = s1\<lparr>toggleState := (toggleState s1)(i := newState)\<rparr>
              in emit_eeprom [Report (switch_name i) param_name (PBool newState)] s2)
         | None \<Rightarrow> s)
      else s)"

subsection \<open>Processing a scanned identifier\<close>

text \<open>
  \<open>clk 0\<close> is the reading of \<^verbatim>\<open>millis()\<close> inside \<^verbatim>\<open>pushLog\<close>, \<open>clk 1\<close> the one stored
  in \<^verbatim>\<open>relay9_on_at\<close>, \<open>clk 2\<close> the one printed in the last-access text.
\<close>

definition processUID :: "string \<Rightarrow> (nat \<Rightarrow> u32) \<Rightarrow> manager \<Rightarrow> manager" where
  "processUID u clk s =
     (if length u = 0 then s
      else
        (let s1 =
           (if rfidAddMode s then
              (let (e, idx) = addCard u (eeprom s);
                   a = s\<lparr>eeprom := e\<rparr>;
                   b = (if idx \<ge> 0 then emit_eeprom (buzz 2 100) (pushLog 3 idx u (clk 0) a)
                        else emit_eeprom (buzz 2 300) a);
                   c = b\<lparr>rfidAddMode := False\<rparr>
               in emit_eeprom [Report RFID_MANAGER_NAME ''Mode'' (PInt 0)] c)
            else if rfidRemoveMode s then
              (let (e, ok) = removeCard u (eeprom s);
                   a = s\<lparr>eeprom := e\<rparr>;
                   b = (if ok then emit_eeprom (buzz 2 100) (pushLog 4 (- 1) u (clk 0) a)
                        else emit_eeprom (buzz 2 300) a);
                   c = b\<lparr>rfidRemoveMode := False\<rparr>
               in emit_eeprom [Report RFID_MANAGER_NAME ''Mode'' (PInt 0)] c)
            else
              (let idx = findCardIndex_eeprom (eeprom s) u in
               if idx \<ge> 0 then
                 (let a = pushLog 1 idx u (clk 0) s;
                      b = setRelay9 True a;
                      c = b\<lparr>relay9_on_at := clk 1\<rparr>
                  in emit_eeprom (buzz 3 80) c)
               else emit_eeprom (buzz 2 300) (pushLog 2 (- 1) u (clk 0) s)))
         in emit_eeprom
              [Report RFID_MANAGER_NAME ''LastAccess''
                 (PStr (''UID: '' @ u @ '' | '' @ dec (unat (clk 2 div 1000)))),
               Report RFID_MANAGER_NAME ''CardCount'' (PInt (int (getCardCount (eeprom s1)))),
               Report RFID_MANAGER_NAME ''CardList'' (PStr (buildCardListJSON (eeprom s1)))]
              s1))"

subsection \<open>The main loop\<close>

text \<open>
  One pass of \<^verbatim>\<open>loop\<close> after the reset-button poll and the Wi-Fi indicator: the
  periodic report, the scan if the reader has one, the mode timeout, the automatic
  switch-off of the ninth relay. \<open>clk 0\<close> and \<open>clk 1\<close> are the readings of
  \<^verbatim>\<open>millis()\<close> in the periodic report, \<open>clk 2\<close> the one of the mode timeout,
  \<open>clk 3\<close> the one of the relay test.
\<close>

definition loop_report :: "(nat \<Rightarrow> u32) \<Rightarrow> manager \<Rightarrow> manager" where
  "loop_report clk s =
     (if clk 0 - lastReport s > 60000
      then (emit_eeprom
              (map (\<lambda>i. Report (switch_name i) ''Power'' (PBool (toggleState s i))) [0..<8]
               @ [Report RFID_MANAGER_NAME ''LastAccess'' (PStr [])]) s)
           \<lparr>lastReport := clk 1\<rparr>
      else s)"

definition loop_timeout_eeprom :: "u32 \<Rightarrow> manager \<Rightarrow> manager" where
  "loop_timeout_eeprom now s =
     (if (rfidAddMode s \<or> rfidRemoveMode s) \<and> now > rfidModeExpireAt s
      then emit_eeprom [Report RFID_MANAGER_NAME ''Mode'' (PInt 0)]
             (s\<lparr>rfidAddMode := False, rfidRemoveMode := False\<rparr>)
      else s)"

definition loop_relay9 :: "u32 \<Rightarrow> manager \<Rightarrow> manager" where
  "loop_relay9 now s =
     (if relay9_state s \<and> now - relay9_on_at s > RELAY9_AUTO_OFF_MS
      then setRelay9 False s else s)"

definition loop_eeprom ::
  "(nat \<Rightarrow> u32) \<Rightarrow> (string \<times> (nat \<Rightarrow> u32)) option \<Rightarrow> manager \<Rightarrow> manager" where
  "loop_eeprom clk scan s =
     (let s1 = loop_report clk s;
          s2 = (case scan of None \<Rightarrow> s1 | Some (u, c) \<Rightarrow> processUID u c s1);
          s3 = loop_timeout_eeprom (clk 2) s2
      in loop_relay9 (clk 3) s3)"

section \<open>Requests and runs\<close>

text \<open>
  What can happen to the NVS controller: a parameter write arriving from RainMaker, or
  one pass of the main loop (with the card the reader delivers, if any).
\<close>

datatype request =
    Write string string bool u32
  | Pass u32 "(string \<times> (nat \<Rightarrow> u32)) option"

fun step :: "variant \<Rightarrow> request \<Rightarrow> controller \<Rightarrow> controller" where
  "step v (Write dev pname b t) s = write_callback v dev pname b t s"
| "step v (Pass now scan) s = loop v now scan s"

definition run :: "variant \<Rightarrow> request list \<Rightarrow> controller \<Rightarrow> controller" where
  "run v rs s = fold (step v) rs s"

text \<open>The same for the EEPROM manager.\<close>

datatype request_eeprom =
    Write_eeprom string string pval u32
  | Pass_eeprom "nat \<Rightarrow> u32" "(string \<times> (nat \<Rightarrow> u32)) option"

fun step_eeprom :: "request_eeprom \<Rightarrow> manager \<Rightarrow> manager" where
  "step_eeprom (Write_eeprom dev pname val t) s = write_callback_eeprom dev pname val t s"
| "step_eeprom (Pass_eeprom clk scan) s = loop_eeprom clk scan s"

definition run_eeprom :: "request_eeprom list \<Rightarrow> manager \<Rightarrow> manager" where
  "run_eeprom rs s = fold step_eeprom rs s"

section \<open>Names for the effects of single actions\<close>

definition pulse_effects :: "variant \<Rightarrow> nat \<Rightarrow> effect list" where
  "pulse_effects v i = [PinWrite (RELAY_PINS v ! i) (RELAY_ACTIVE_HIGH v),
                       Report (relay_dev v) (P_RELAY v i) (PBool True)]"

definition off_effects :: "variant \<Rightarrow> nat \<Rightarrow> effect list" where
  "off_effects v i = [PinWrite (RELAY_PINS v ! i) (\<not> RELAY_ACTIVE_HIGH v),
                     Report (relay_dev v) (P_RELAY v i) (PBool False)]"

definition exit_reports :: "effect list" where
  "exit_reports = [Report rfid_dev P_STATUS (PStr ''NORMAL''),
                   Report rfid_dev P_ADD_MODE (PBool False),
                   Report rfid_dev P_REMOVE_MODE (PBool False)]"

definition mark_reports :: "variant \<Rightarrow> effect list" where
  "mark_reports v = map (\<lambda>i. Report rfid_dev (P_MARK v i) (PBool False)) [0..<8]"

section \<open>Example states\<close>

definition idle :: controller where
  "idle =
     \<lparr>cards = [], prefs = Map.empty, statusStr = ''NORMAL'',
      addMode = False, removeMode = False, mark = (\<lambda>_. False),
      relayState = (\<lambda>_. False), relayOffAt = (\<lambda>_. 0), modeStartMs = 0, trace = []\<rparr>"

definition granted_example :: controller where
  "granted_example = idle\<lparr>cards := [\<lparr>uid = ''04A1B2C3'', mask = 3\<rparr>]\<rparr>"


text \<open>Add mode with the third mark staged, reached from the idle state by two writes.\<close>

definition staged :: "variant \<Rightarrow> controller" where
  "staged v = run v [Write rfid_dev P_ADD_MODE True 0, Write rfid_dev (P_MARK v 2) True 10] idle"

definition superseded :: controller where
  "superseded = step Cloud (Write rfid_dev P_REMOVE_MODE True 20) (staged Cloud)"

fun is_beep :: "effect \<Rightarrow> bool" where
  "is_beep (Beep _) = True"
| "is_beep _ = False"

text \<open>
  The state the start-up routine of the EEPROM sketch leaves behind for the EEPROM
  content \<open>e\<close>: \<^verbatim>\<open>ensureEepromInitialized\<close> resets a count above the capacity, the
  relays are restored from their bytes, the first reports are sent.
\<close>

definition ensureEepromInitialized :: "eeprom_bytes \<Rightarrow> eeprom_bytes" where
  "ensureEepromInitialized e = (if getCardCount e > MAX_CARDS_eeprom then setCardCount 0 e else e)"

definition readEEPROMRelayState :: "nat \<Rightarrow> eeprom_bytes \<Rightarrow> bool" where
  "readEEPROMRelayState addr e = (e (100 + addr) \<noteq> 0)"

definition restore_relay :: "nat \<Rightarrow> manager \<Rightarrow> manager" where
  "restore_relay i q =
     (let st = readEEPROMRelayState i (eeprom q)
      in setRelay_eeprom (RelayPin ! i) i st (q\<lparr>toggleState := (toggleState q)(i := st)\<rparr>))"

definition power_up_eeprom :: "eeprom_bytes \<Rightarrow> manager" where
  "power_up_eeprom e =
     (let s0 = \<lparr>eeprom = ensureEepromInitialized e, toggleState = (\<lambda>_. False),
                rfidAddMode = False, rfidRemoveMode = False, rfidModeExpireAt = 0,
                relay9_state = False, relay9_on_at = 0,
                logs = (\<lambda>_. \<lparr>ts = 0, event = 0, uidIndex = 0, shortUid = replicate 6 0\<rparr>),
                logCount = 0, logPos = 0, lastReport = 0, sent = []\<rparr>;
          s1 = fold restore_relay [0..<8] s0;
          s2 = setRelay9 (readEEPROMRelayState 8 (eeprom s1)) s1;
          s3 = emit_eeprom (map (\<lambda>i. Report (switch_name i) ''Power'' (PBool (toggleState s2 i)))
                              [0..<8]) s2
      in emit_eeprom
           [Report RFID_MANAGER_NAME ''CardCount'' (PInt (int (getCardCount (eeprom s3)))),
            Report RFID_MANAGER_NAME ''CardList'' (PStr (buildCardListJSON (eeprom s3))),
            Report RFID_MANAGER_NAME ''LastAccess'' (PStr ''None''),
            Report RFID_MANAGER_NAME ''Mode'' (PInt 0)] s3)"

definition blank :: eeprom_bytes where
  "blank = (\<lambda>_. 0)"

text \<open>The EEPROM manager after power-up on a blank EEPROM and a write of \<^verbatim>\<open>Mode = 1\<close> at time 0.\<close>

definition armed_eeprom :: manager where
  "armed_eeprom = write_callback_eeprom RFID_MANAGER_NAME ''Mode'' (PInt 1) 0 (power_up_eeprom blank)"



text \<open>Add mode with the third mark staged and a registry of 64 cards \<^verbatim>\<open>04A1B200\<close> .. \<^verbatim>\<open>04A1B263\<close>.\<close>

definition full_example :: controller where
  "full_example =
     (staged Cloud)\<lparr>cards := map (\<lambda>i. \<lparr>uid = ''04A1B2'' @ fmt02 i, mask = 1\<rparr>) [0..<64]\<rparr>"

text \<open>A request whose scan, if it has one, delivers a non-empty identifier.\<close>

fun scan_nonempty :: "request \<Rightarrow> bool" where
  "scan_nonempty (Write dev pname b t) = True"
| "scan_nonempty (Pass now None) = True"
| "scan_nonempty (Pass now (Some (u, clk))) = (u \<noteq> [])"

text \<open>The registry is within capacity, holds no empty identifier, and is what the store would load.\<close>

definition mirrored :: "controller \<Rightarrow> bool" where
  "mirrored s = (length (cards s) \<le> MAX_CARDS \<and> list_all (\<lambda>c. uid c \<noteq> []) (cards s) \<and>
                 loadCardsFromNVS (prefs s) = cards s)"

definition three_cards :: "CardEntry list" where
  "three_cards = [\<lparr>uid = ''04A1B2C3'', mask = 3\<rparr>, \<lparr>uid = ''11223344'', mask = 4\<rparr>,
                  \<lparr>uid = ''DEADBEEF'', mask = 0\<rparr>]"


section \<open>Decimal numerals\<close>

lemma digit_value: "d < 10 \<Longrightarrow> of_char (digit d) - 48 = d"
proof -
  assume "d < 10"
  then have "d \<in> {0, 1, 2, 3, 4, 5, 6, 7, 8, 9}" by auto
  then show ?thesis by (auto simp: digit_def)
qed

lemma undec_snoc: "undec (s @ [c]) = 10 * undec s + (of_char c - 48)"
  by (simp add: undec_def)

lemma undec_dec: "undec (dec n) = n"
proof (induction n rule: dec.induct)
  case (1 n)
  show ?case
  proof (cases "n < 10")
    case True
    then show ?thesis by (simp add: dec.simps [of n] undec_def digit_value)
  next
    case False
    then show ?thesis using 1 by (simp add: dec.simps [of n] undec_snoc digit_value)
  qed
qed

lemma dec_inj: "dec a = dec b \<Longrightarrow> a = b"
proof -
  assume "dec a = dec b"
  then have "undec (dec a) = undec (dec b)" by (rule arg_cong)
  then show ?thesis by (simp only: undec_dec)
qed

lemma undec_fmt02: "undec (fmt02 n) = n"
  using undec_dec [of n] by (simp add: fmt02_def undec_def)

lemma fmt02_inj: "fmt02 a = fmt02 b \<Longrightarrow> a = b"
proof -
  assume "fmt02 a = fmt02 b"
  then have "undec (fmt02 a) = undec (fmt02 b)" by (rule arg_cong)
  then show ?thesis by (simp only: undec_fmt02)
qed

section \<open>Times as 32-bit words\<close>

lemma w_unat: "d < 2 ^ 32 \<Longrightarrow> unat (of_nat d :: u32) = d"
  by (simp add: unat_of_nat)

lemma w_le: "d < 2 ^ 32 \<Longrightarrow> ((15000 :: u32) \<le> of_nat d) = (15000 \<le> d)"
  by (simp add: word_le_nat_alt unat_of_nat)

lemma w_add: "unat t0 + d < 2 ^ 32 \<Longrightarrow> unat (t0 + of_nat d :: u32) = unat t0 + d"
proof -
  assume a: "unat t0 + d < 2 ^ 32"
  then have "d < 2 ^ 32" by simp
  then have "unat (of_nat d :: u32) = d" by (simp add: unat_of_nat)
  with a show ?thesis by (simp add: unat_word_ariths)
qed





section \<open>The card list\<close>

lemma find_upt_None: "List.find P [0..<n] = None \<longleftrightarrow> (\<forall>i<n. \<not> P i)"
  by (auto simp: find_None_iff)

lemma find_upt_Some:
  "List.find P [0..<n] = Some i \<longleftrightarrow> i < n \<and> P i \<and> (\<forall>j<i. \<not> P j)"
  by (auto simp: find_Some_iff)

lemma findCardIndex_cases:
  "(findCardIndex cs u = - 1 \<and> (\<forall>i<length cs. uid (cs ! i) \<noteq> u)) \<or>
   (\<exists>i<length cs. findCardIndex cs u = int i \<and> uid (cs ! i) = u \<and> (\<forall>j<i. uid (cs ! j) \<noteq> u))"
proof (cases "List.find (\<lambda>i. uid (cs ! i) = u) [0..<length cs]")
  case None
  then have "findCardIndex cs u = - 1" by (simp add: findCardIndex_def)
  moreover from None have "\<forall>i<length cs. uid (cs ! i) \<noteq> u" by (simp add: find_upt_None)
  ultimately show ?thesis by simp
next
  case (Some i)
  then have "i < length cs \<and> uid (cs ! i) = u \<and> (\<forall>j<i. uid (cs ! j) \<noteq> u)"
    by (simp add: find_upt_Some)
  moreover from Some have "findCardIndex cs u = int i" by (simp add: findCardIndex_def)
  ultimately show ?thesis by blast
qed

lemma findCardIndex_neg: "findCardIndex cs u < 0 \<longleftrightarrow> u \<notin> uid ` set cs"
  using findCardIndex_cases [of cs u] by (force simp: in_set_conv_nth)

lemma findCardIndex_found:
  "findCardIndex cs u \<ge> 0 \<Longrightarrow>
     nat (findCardIndex cs u) < length cs \<and> uid (cs ! nat (findCardIndex cs u)) = u
     \<and> (\<forall>j < nat (findCardIndex cs u). uid (cs ! j) \<noteq> u)"
  using findCardIndex_cases [of cs u] by auto

lemma pulseRelayAutoOff_eq:
  "i < 8 \<Longrightarrow> pulseRelayAutoOff v i ms t s =
     s\<lparr>relayState := (relayState s)(i := True),
       relayOffAt := (relayOffAt s)(i := t + ms),
       trace := trace s @ pulse_effects v i\<rparr>"
  by (simp add: pulseRelayAutoOff_def setRelay_def emit_def pulse_effects_def Let_def)

lemma pulse_fold:
  "\<forall>i \<in> set xs. i < 8 \<Longrightarrow>
   fold (\<lambda>i q. if c i then pulseRelayAutoOff v i ms (clk i) q else q) xs s =
     s\<lparr>relayState := (\<lambda>j. if j \<in> set xs \<and> c j then True else relayState s j),
       relayOffAt := (\<lambda>j. if j \<in> set xs \<and> c j then clk j + ms else relayOffAt s j),
       trace := trace s @ concat (map (pulse_effects v) (filter c xs))\<rparr>"
proof (induction xs arbitrary: s)
  case Nil
  then show ?case by simp
next
  case (Cons x xs)
  then show ?case
    by (auto simp: pulseRelayAutoOff_eq fun_eq_iff intro!: controller.equality)
qed


lemma mask_test: "((m::u8) AND push_bit i 1 \<noteq> 0) = bit m i"
  by (simp add: bit_iff_and_push_bit_not_eq_0)

lemma mask_test_pow: "((m::u8) AND 2 ^ i \<noteq> 0) = bit m i" "((m::u8) AND 2 ^ i = 0) = (\<not> bit m i)"
  using mask_test [of m i] by auto

theorem normal_scan_grants_or_denies:
  assumes "\<not> addMode s" and "\<not> removeMode s"
  shows "let idx = findCardIndex (cards s) u; s' = loop_scan v u clk s in
           cards s' = cards s \<and> prefs s' = prefs s \<and> \<not> addMode s' \<and> \<not> removeMode s' \<and>
           (idx \<ge> 0 \<longleftrightarrow> u \<in> uid ` set (cards s)) \<and>
           (if idx \<ge> 0 \<and> mask (cards s ! nat idx) \<noteq> 0
            then let m = mask (cards s ! nat idx) in
              uid (cards s ! nat idx) = u \<and>
              relayState s' = (\<lambda>i. if i < 8 \<and> bit m i then True else relayState s i) \<and>
              relayOffAt s' = (\<lambda>i. if i < 8 \<and> bit m i then clk i + 5000 else relayOffAt s i) \<and>
              trace s' = trace s @ concat (map (pulse_effects v) (filter (bit m) [0..<8]))
                           @ [ReportLastAccess u True m] @ buzzer_granted
            else relayState s' = relayState s \<and> relayOffAt s' = relayOffAt s \<and>
                 trace s' = trace s @ [ReportLastAccess u False 0] @ buzzer_denied)"
proof -
  have found: "(findCardIndex (cards s) u \<ge> 0) = (u \<in> uid ` set (cards s))"
    using findCardIndex_neg [of "cards s" u] by auto
  have at: "findCardIndex (cards s) u \<ge> 0 \<Longrightarrow> uid (cards s ! nat (findCardIndex (cards s) u)) = u"
    using findCardIndex_found [of "cards s" u] by simp
  show ?thesis
    using assms found at
    by (simp add: loop_scan_def scan_normal_def Let_def mask_test_pow pulse_fold
        updateLastAccessParam_def emit_def fun_eq_iff)
qed

theorem normal_scan_grants_or_denies_witness:
  "let s' = loop_scan Cloud ''04A1B2C3'' (\<lambda>_. 1000) granted_example in
     cards s' = cards granted_example \<and>
     relayState s' 0 \<and> relayState s' 1 \<and> \<not> relayState s' 2 \<and>
     relayOffAt s' 0 = 6000 \<and> relayOffAt s' 1 = 6000 \<and> relayOffAt s' 2 = 0 \<and>
     trace s' = pulse_effects Cloud 0 @ pulse_effects Cloud 1
                @ [ReportLastAccess ''04A1B2C3'' True 3, Beep 200]"
  using normal_scan_grants_or_denies [of granted_example "''04A1B2C3''" Cloud "\<lambda>_. 1000"]
  by (simp add: granted_example_def idle_def findCardIndex_def Let_def buzzer_granted_def upt_rec)


section \<open>Leaving a mode, and the sweep\<close>

lemma mark_reset_fold:
  "fold (\<lambda>i q. emit [Report rfid_dev (P_MARK v i) (PBool False)]
                  (q\<lparr>mark := (mark q)(i := False)\<rparr>)) xs s =
     s\<lparr>mark := (\<lambda>j. if j \<in> set xs then False else mark s j),
       trace := trace s @ map (\<lambda>i. Report rfid_dev (P_MARK v i) (PBool False)) xs\<rparr>"
proof (induction xs arbitrary: s)
  case Nil
  then show ?case by simp
next
  case (Cons x xs)
  then show ?case
    by (auto simp: emit_def fun_eq_iff intro!: controller.equality)
qed

lemma exitToNormal_Cloud:
  "exitToNormal Cloud f s =
     s\<lparr>addMode := False, removeMode := False, statusStr := ''NORMAL'',
       mark := (\<lambda>j. if j < 8 then False else mark s j),
       trace := trace s @ exit_reports @ mark_reports Cloud @ (if f then buzzer_timeout3 else [])\<rparr>"
proof -
  have "exitToNormal Cloud f s =
          (let s3 = (emit [Report rfid_dev P_ADD_MODE (PBool False),
                           Report rfid_dev P_REMOVE_MODE (PBool False)]
                      (updateStatus ''NORMAL'' (s\<lparr>addMode := False, removeMode := False\<rparr>)))
                    \<lparr>mark := (\<lambda>j. if j \<in> set [0..<8] then False else mark s j),
                     trace := trace s @ exit_reports @ mark_reports Cloud\<rparr>
           in if f then emit buzzer_timeout3 s3 else s3)"
    unfolding exitToNormal_def Let_def variant.case mark_reset_fold
    by (simp add: emit_def updateStatus_def exit_reports_def mark_reports_def del: P_MARK.simps)
  then show ?thesis
    by (auto simp: Let_def updateStatus_def emit_def fun_eq_iff intro!: controller.equality)
qed

lemma exitToNormal_Single:
  "exitToNormal Single f s =
     s\<lparr>addMode := False, removeMode := False, statusStr := ''NORMAL'',
       trace := trace s @ exit_reports @ (if f then buzzer_timeout3 else [])\<rparr>"
  by (auto simp: exitToNormal_def Let_def updateStatus_def emit_def
      exit_reports_def intro!: controller.equality)

lemma sweep_fold:
  "distinct xs \<Longrightarrow> \<forall>i \<in> set xs. i < 8 \<Longrightarrow>
   fold (\<lambda>i q. if due now (relayOffAt q i)
               then (let q1 = setRelay v i False q
                     in q1\<lparr>relayOffAt := (relayOffAt q1)(i := 0)\<rparr>)
               else q) xs s =
     s\<lparr>relayState := (\<lambda>j. if j \<in> set xs \<and> due now (relayOffAt s j) then False else relayState s j),
       relayOffAt := (\<lambda>j. if j \<in> set xs \<and> due now (relayOffAt s j) then 0 else relayOffAt s j),
       trace := trace s @ concat (map (off_effects v) (filter (\<lambda>j. due now (relayOffAt s j)) xs))\<rparr>"
proof (induction xs arbitrary: s)
  case Nil
  then show ?case by simp
next
  case (Cons x xs)
  have *: "filter (\<lambda>j. due now (if j = x then 0 else relayOffAt s j)) xs
           = filter (\<lambda>j. due now (relayOffAt s j)) xs"
    using Cons.prems by (auto intro: filter_cong)
  from Cons show ?case
    by (auto simp: setRelay_def emit_def Let_def off_effects_def fun_eq_iff * intro!: controller.equality)
qed

lemma loop_sweep_eq:
  "loop_sweep v now s =
     s\<lparr>relayState := (\<lambda>j. if j < 8 \<and> due now (relayOffAt s j) then False else relayState s j),
       relayOffAt := (\<lambda>j. if j < 8 \<and> due now (relayOffAt s j) then 0 else relayOffAt s j),
       trace := trace s @ concat (map (off_effects v) (filter (\<lambda>j. due now (relayOffAt s j)) [0..<8]))\<rparr>"
  unfolding loop_sweep_def by (subst sweep_fold) auto


section \<open>Scans and parameter writes\<close>

lemma scan_add_keeps:
  "mark (scan_add u s) = mark s \<and> relayState (scan_add u s) = relayState s \<and>
   relayOffAt (scan_add u s) = relayOffAt s \<and> addMode (scan_add u s) = addMode s \<and>
   removeMode (scan_add u s) = removeMode s \<and> modeStartMs (scan_add u s) = modeStartMs s \<and>
   (\<exists>es. trace (scan_add u s) = trace s @ es)"
  by (simp add: scan_add_def Let_def updateListCardsParam_def updateLastAccessParam_def emit_def)

lemma scan_remove_keeps:
  "mark (scan_remove u s) = mark s \<and> relayState (scan_remove u s) = relayState s \<and>
   relayOffAt (scan_remove u s) = relayOffAt s \<and> addMode (scan_remove u s) = addMode s \<and>
   removeMode (scan_remove u s) = removeMode s \<and> modeStartMs (scan_remove u s) = modeStartMs s \<and>
   (\<exists>es. trace (scan_remove u s) = trace s @ es)"
  by (simp add: scan_remove_def Let_def updateListCardsParam_def updateLastAccessParam_def emit_def)

lemma loop_scan_in_mode:
  assumes "addMode s \<or> removeMode s"
  shows "\<exists>q es. loop_scan v u clk s = exitToNormal v False q \<and> trace q = trace s @ es \<and>
           mark q = mark s \<and> relayState q = relayState s \<and> relayOffAt q = relayOffAt s"
proof (cases "addMode s")
  case True
  then have "loop_scan v u clk s = exitToNormal v False (scan_add u s)"
    by (simp add: loop_scan_def)
  with scan_add_keeps [of u s] show ?thesis by blast
next
  case False
  with assms have "loop_scan v u clk s = exitToNormal v False (scan_remove u s)"
    by (simp add: loop_scan_def)
  with scan_remove_keeps [of u s] show ?thesis by blast
qed

lemma loop_scan_normal_keeps:
  assumes "\<not> addMode s" "\<not> removeMode s"
  shows "mark (loop_scan v u clk s) = mark s \<and> \<not> addMode (loop_scan v u clk s) \<and>
         \<not> removeMode (loop_scan v u clk s) \<and> (\<exists>es. trace (loop_scan v u clk s) = trace s @ es)"
  using assms
  by (simp add: loop_scan_def scan_normal_def Let_def mask_test_pow pulse_fold
      updateLastAccessParam_def emit_def)

lemma write_callback_other:
  assumes "pname \<noteq> P_ADD_MODE" "pname \<noteq> P_REMOVE_MODE"
  shows "addMode (write_callback v dev pname b t s) = addMode s \<and>
         removeMode (write_callback v dev pname b t s) = removeMode s"
  using assms
  by (simp add: write_callback_def emit_def pulseRelayAutoOff_def setRelay_def Let_def
      split: option.splits)

lemma mark_report_mem: "i < 8 \<Longrightarrow> Report rfid_dev (P_MARK v i) (PBool False) \<in> set (mark_reports v)"
  by (simp add: mark_reports_def del: P_MARK.simps)

text \<open>
  C4 (as amended). In \<^verbatim>\<open>RFID_Controller_Version_cloud.ino\<close> every request that takes the
  controller from Enroll or Unenroll to Normal (a mode switch written off, a scan that
  ends the mode, the timeout) leaves all eight staged marks false and reports each of
  them as false among the effects of that request.
\<close>

theorem exit_clears_marks_Cloud:
  assumes "addMode s \<or> removeMode s"
      and "\<not> addMode (step Cloud r s)" and "\<not> removeMode (step Cloud r s)"
  shows "(\<forall>i<8. \<not> mark (step Cloud r s) i) \<and>
         (\<forall>i<8. Report rfid_dev (P_MARK Cloud i) (PBool False)
                   \<in> set (drop (length (trace s)) (trace (step Cloud r s))))"
proof (cases r)
  case (Write dev pname b t)
  show ?thesis
  proof (cases "pname = P_ADD_MODE \<or> pname = P_REMOVE_MODE")
    case True
    with assms Write have "\<not> b"
      by (auto simp: write_callback_def emit_def enterAddMode_def enterRemoveMode_def
          updateStatus_def split: if_splits)
    with True Write show ?thesis
      by (auto simp: write_callback_def emit_def exitToNormal_Cloud mark_report_mem
          simp del: P_MARK.simps)
  next
    case False
    with assms Write write_callback_other [of pname Cloud dev b t s] show ?thesis by auto
  qed
next
  case (Pass now scan)
  define s1 where "s1 = loop_sweep Cloud now s"
  define s2 where "s2 = loop_timeout Cloud now s1"
  have s1: "addMode s1 = addMode s" "removeMode s1 = removeMode s" "mark s1 = mark s"
    and t1: "\<exists>es. trace s1 = trace s @ es"
    by (simp_all add: s1_def loop_sweep_eq)
  show ?thesis
  proof (cases "now - modeStartMs s1 \<ge> MODE_TIMEOUT_MS")
    case True
    with assms(1) s1 have s2eq: "s2 = exitToNormal Cloud True s1"
      by (simp add: s2_def loop_timeout_def)
    have n2: "\<not> addMode s2" "\<not> removeMode s2" and m2: "\<forall>i<8. \<not> mark s2 i"
      by (simp_all add: s2eq exitToNormal_Cloud)
    from t1 obtain es where es: "trace s1 = trace s @ es" by blast
    have t2: "trace s2 = trace s @ es @ exit_reports @ mark_reports Cloud @ buzzer_timeout3"
      by (simp add: s2eq exitToNormal_Cloud es)
    show ?thesis
    proof (cases scan)
      case None
      with Pass have "step Cloud r s = s2" by (simp add: loop_def s1_def s2_def)
      with m2 t2 show ?thesis by (auto simp: mark_report_mem simp del: P_MARK.simps)
    next
      case (Some p)
      obtain u clk where p: "p = (u, clk)" by (cases p)
      with Some Pass have st: "step Cloud r s = loop_scan Cloud u clk s2"
        by (simp add: loop_def s1_def s2_def)
      from loop_scan_normal_keeps [OF n2, of Cloud u clk]
      obtain fs where "mark (loop_scan Cloud u clk s2) = mark s2"
        "trace (loop_scan Cloud u clk s2) = trace s2 @ fs" by blast
      with st m2 t2 show ?thesis by (auto simp: mark_report_mem simp del: P_MARK.simps)
    qed
  next
    case False
    then have s2eq: "s2 = s1" by (simp add: s2_def loop_timeout_def)
    show ?thesis
    proof (cases scan)
      case None
      with Pass s2eq have "step Cloud r s = s1" by (simp add: loop_def s1_def s2_def)
      with assms s1 show ?thesis by auto
    next
      case (Some p)
      obtain u clk where p: "p = (u, clk)" by (cases p)
      with Some Pass s2eq have st: "step Cloud r s = loop_scan Cloud u clk s1"
        by (simp add: loop_def s1_def s2_def)
      from assms(1) s1 have "addMode s1 \<or> removeMode s1" by simp
      from loop_scan_in_mode [OF this, of Cloud u clk]
      obtain q fs where q: "loop_scan Cloud u clk s1 = exitToNormal Cloud False q"
        "trace q = trace s1 @ fs" by blast
      from t1 obtain es where es: "trace s1 = trace s @ es" by blast
      from st q es show ?thesis
        by (auto simp: exitToNormal_Cloud mark_report_mem simp del: P_MARK.simps)
    qed
  qed
qed

lemmas eval_write = run_def write_callback_def enterAddMode_def enterRemoveMode_def updateStatus_def
  emit_def P_ADD_MODE_def P_REMOVE_MODE_def P_STATUS_def P_LISTCARDS_def idle_def dec.simps digit_def upt_rec

lemma staged_Cloud: "addMode (staged Cloud) \<and> \<not> removeMode (staged Cloud) \<and> mark (staged Cloud) 2"
  by (simp add: staged_def eval_write)

text \<open>
  Witness for C4: from add mode with the third mark staged, writing the add switch off
  leaves the mark false and reports \<^verbatim>\<open>LT3\<close> as false.
\<close>

theorem exit_clears_marks_Cloud_witness:
  "addMode (staged Cloud) \<and>
   \<not> mark (step Cloud (Write rfid_dev P_ADD_MODE False 100) (staged Cloud)) 2 \<and>
   Report rfid_dev (P_MARK Cloud 2) (PBool False)
     \<in> set (drop (length (trace (staged Cloud)))
               (trace (step Cloud (Write rfid_dev P_ADD_MODE False 100) (staged Cloud))))"
proof -
  let ?r = "Write rfid_dev P_ADD_MODE False 100"
  have h1: "addMode (staged Cloud) \<or> removeMode (staged Cloud)"
    by (simp add: staged_Cloud)
  have h2: "\<not> addMode (step Cloud ?r (staged Cloud))"
    and h3: "\<not> removeMode (step Cloud ?r (staged Cloud))"
    by (simp_all add: write_callback_def emit_def exitToNormal_Cloud)
  have "(2::nat) < 8" by simp
  with exit_clears_marks_Cloud [OF h1 h2 h3] staged_Cloud show ?thesis by blast
qed

text \<open>
  Counterexample to C4 as stated: the single-device sketch of \<^verbatim>\<open>unnamed/part_000\<close>
  returns to Normal on the same write and keeps the staged mark.
\<close>

theorem exit_keeps_marks_Single:
  "addMode (staged Single) \<and> mark (staged Single) 2 \<and>
   \<not> addMode (step Single (Write rfid_dev P_ADD_MODE False 100) (staged Single)) \<and>
   \<not> removeMode (step Single (Write rfid_dev P_ADD_MODE False 100) (staged Single)) \<and>
   mark (step Single (Write rfid_dev P_ADD_MODE False 100) (staged Single)) 2"
  by (simp add: staged_def eval_write exitToNormal_Single)


section \<open>At most one of the two modes\<close>

lemma exitToNormal_modes:
  "\<not> addMode (exitToNormal v f s) \<and> \<not> removeMode (exitToNormal v f s)"
  by (cases v) (simp_all add: exitToNormal_Cloud exitToNormal_Single)

lemma loop_timeout_excl:
  "\<not> (addMode s \<and> removeMode s) \<Longrightarrow>
   \<not> (addMode (loop_timeout v now s) \<and> removeMode (loop_timeout v now s))"
  by (simp add: loop_timeout_def exitToNormal_modes)

lemma loop_scan_excl:
  "\<not> (addMode (loop_scan v u clk s) \<and> removeMode (loop_scan v u clk s))"
  using loop_scan_normal_keeps [of s v u clk]
  by (cases "addMode s \<or> removeMode s") (auto simp: loop_scan_def exitToNormal_modes)

lemma step_excl:
  assumes "\<not> (addMode s \<and> removeMode s)"
  shows "\<not> (addMode (step v r s) \<and> removeMode (step v r s))"
proof (cases r)
  case (Write dev pname b t)
  show ?thesis
  proof (cases "pname = P_ADD_MODE \<or> pname = P_REMOVE_MODE")
    case True
    with Write show ?thesis
      by (auto simp: write_callback_def emit_def enterAddMode_def enterRemoveMode_def
          updateStatus_def exitToNormal_modes)
  next
    case False
    with assms Write write_callback_other [of pname v dev b t s] show ?thesis by auto
  qed
next
  case (Pass now scan)
  have "\<not> (addMode (loop_sweep v now s) \<and> removeMode (loop_sweep v now s))"
    using assms by (simp add: loop_sweep_eq)
  from loop_timeout_excl [OF this]
  have *: "\<not> (addMode (loop_timeout v now (loop_sweep v now s)) \<and>
              removeMode (loop_timeout v now (loop_sweep v now s)))" .
  show ?thesis
  proof (cases scan)
    case None
    with Pass * show ?thesis by (simp add: loop_def)
  next
    case (Some p)
    with Pass show ?thesis by (cases p) (simp add: loop_def loop_scan_excl)
  qed
qed

lemma run_excl:
  "\<not> (addMode s \<and> removeMode s) \<Longrightarrow> \<not> (addMode (run v rs s) \<and> removeMode (run v rs s))"
  unfolding run_def
proof (induction rs arbitrary: s)
  case Nil
  then show ?case by simp
next
  case (Cons r rs)
  from Cons.IH [OF step_excl [OF Cons.prems]] show ?case by simp
qed

lemma setRelay_fold_modes:
  "addMode (fold (\<lambda>i q. setRelay v i False q) xs s) = addMode s \<and>
   removeMode (fold (\<lambda>i q. setRelay v i False q) xs s) = removeMode s"
  by (induction xs arbitrary: s) (simp_all add: setRelay_def emit_def)

lemma power_up_modes: "\<not> addMode (power_up v p) \<and> \<not> removeMode (power_up v p)"
  by (simp add: power_up_def updateListCardsParam_def emit_def setRelay_fold_modes)

lemma pushLog_keeps:
  "rfidAddMode (pushLog ev idx u t s) = rfidAddMode s \<and>
   rfidRemoveMode (pushLog ev idx u t s) = rfidRemoveMode s \<and>
   toggleState (pushLog ev idx u t s) = toggleState s \<and>
   relay9_state (pushLog ev idx u t s) = relay9_state s \<and>
   relay9_on_at (pushLog ev idx u t s) = relay9_on_at s \<and>
   rfidModeExpireAt (pushLog ev idx u t s) = rfidModeExpireAt s \<and>
   lastReport (pushLog ev idx u t s) = lastReport s \<and>
   sent (pushLog ev idx u t s) = sent s"
  by (simp add: pushLog_def Let_def)

lemma processUID_modes:
  "(rfidAddMode (processUID u c s) \<longrightarrow> rfidAddMode s) \<and>
   (rfidRemoveMode (processUID u c s) \<longrightarrow> rfidRemoveMode s)"
  by (simp add: processUID_def Let_def pushLog_keeps setRelay9_def emit_eeprom_def
      split: prod.splits)


lemma loop_report_keeps:
  "rfidAddMode (loop_report clk s) = rfidAddMode s \<and>
   rfidRemoveMode (loop_report clk s) = rfidRemoveMode s \<and>
   toggleState (loop_report clk s) = toggleState s"
  by (simp add: loop_report_def emit_eeprom_def)

lemma loop_timeout_eeprom_keeps:
  "(rfidAddMode (loop_timeout_eeprom now s) \<longrightarrow> rfidAddMode s) \<and>
   (rfidRemoveMode (loop_timeout_eeprom now s) \<longrightarrow> rfidRemoveMode s) \<and>
   toggleState (loop_timeout_eeprom now s) = toggleState s"
  by (simp add: loop_timeout_eeprom_def emit_eeprom_def)

lemma loop_relay9_keeps:
  "rfidAddMode (loop_relay9 now s) = rfidAddMode s \<and>
   rfidRemoveMode (loop_relay9 now s) = rfidRemoveMode s \<and>
   toggleState (loop_relay9 now s) = toggleState s"
  by (simp add: loop_relay9_def setRelay9_def emit_eeprom_def)

lemma loop_eeprom_modes:
  "(rfidAddMode (loop_eeprom clk scan s) \<longrightarrow> rfidAddMode s) \<and>
   (rfidRemoveMode (loop_eeprom clk scan s) \<longrightarrow> rfidRemoveMode s)"
proof -
  define s1 where "s1 = loop_report clk s"
  define s2 where "s2 = (case scan of None \<Rightarrow> s1 | Some (u, c) \<Rightarrow> processUID u c s1)"
  define s3 where "s3 = loop_timeout_eeprom (clk 2) s2"
  have e: "loop_eeprom clk scan s = loop_relay9 (clk 3) s3"
    unfolding loop_eeprom_def Let_def s1_def s2_def s3_def by (rule refl)
  have 1: "rfidAddMode s1 = rfidAddMode s" "rfidRemoveMode s1 = rfidRemoveMode s"
    by (simp_all add: s1_def loop_report_keeps)
  have 2: "(rfidAddMode s2 \<longrightarrow> rfidAddMode s1) \<and> (rfidRemoveMode s2 \<longrightarrow> rfidRemoveMode s1)"
  proof (cases scan)
    case None
    then show ?thesis by (simp add: s2_def)
  next
    case (Some p)
    obtain u c where "p = (u, c)" by (cases p)
    with Some processUID_modes [of u c s1] show ?thesis by (simp add: s2_def)
  qed
  have 3: "(rfidAddMode s3 \<longrightarrow> rfidAddMode s2) \<and> (rfidRemoveMode s3 \<longrightarrow> rfidRemoveMode s2)"
    using loop_timeout_eeprom_keeps [of "clk 2" s2] by (simp add: s3_def)
  from 1 2 3 show ?thesis by (simp add: e loop_relay9_keeps)
qed

lemma step_eeprom_excl:
  assumes "\<not> (rfidAddMode s \<and> rfidRemoveMode s)"
  shows "\<not> (rfidAddMode (step_eeprom r s) \<and> rfidRemoveMode (step_eeprom r s))"
proof (cases r)
  case (Write_eeprom dev pname val t)
  with assms show ?thesis
    by (auto simp: write_callback_eeprom_def Let_def emit_eeprom_def setRelay_eeprom_def
        split: option.splits if_splits)
next
  case (Pass_eeprom clk scan)
  with assms loop_eeprom_modes [of clk scan s] show ?thesis by auto
qed

lemma run_eeprom_excl:
  "\<not> (rfidAddMode s \<and> rfidRemoveMode s) \<Longrightarrow>
   \<not> (rfidAddMode (run_eeprom rs s) \<and> rfidRemoveMode (run_eeprom rs s))"
  unfolding run_eeprom_def
proof (induction rs arbitrary: s)
  case Nil
  then show ?case by simp
next
  case (Cons r rs)
  from Cons.IH [OF step_eeprom_excl [OF Cons.prems]] show ?case by simp
qed

lemma restore_fold_modes:
  "rfidAddMode (fold restore_relay xs s) = rfidAddMode s \<and>
   rfidRemoveMode (fold restore_relay xs s) = rfidRemoveMode s"
  by (induction xs arbitrary: s)
     (simp_all add: restore_relay_def setRelay_eeprom_def emit_eeprom_def Let_def)

lemma power_up_eeprom_modes:
  "\<not> rfidAddMode (power_up_eeprom e) \<and> \<not> rfidRemoveMode (power_up_eeprom e)"
  by (simp add: power_up_eeprom_def Let_def emit_eeprom_def setRelay9_def restore_fold_modes)

text \<open>
  C7 (as amended). From power-up on, no run of writes and loop passes leaves both modes
  active, in the NVS sketches and in the EEPROM sketch alike. Requesting one mode while
  the other is active replaces it: the new mode is active, the old one is not, the
  timeout starts afresh, and the only effects are the status and switch reports (no
  buzzer pattern, so no timeout event). A mode request leaves the staged marks of the
  state it is made in as they were.
\<close>

theorem modes_exclusive_supersede:
  "\<not> (addMode (run v rs (power_up v p)) \<and> removeMode (run v rs (power_up v p))) \<and>
   (let s2 = write_callback v d2 P_REMOVE_MODE True t2 (write_callback v d1 P_ADD_MODE True t1 s)
    in removeMode s2 \<and> \<not> addMode s2 \<and> modeStartMs s2 = t2 \<and> mark s2 = mark s \<and>
       trace s2 = trace s @ [Report rfid_dev P_STATUS (PStr ''ADD_MODE''),
                             Report d1 P_ADD_MODE (PBool True),
                             Report rfid_dev P_STATUS (PStr ''REMOVE_MODE''),
                             Report d2 P_REMOVE_MODE (PBool True)]) \<and>
   (let s2 = write_callback v d2 P_ADD_MODE True t2 (write_callback v d1 P_REMOVE_MODE True t1 s)
    in addMode s2 \<and> \<not> removeMode s2 \<and> modeStartMs s2 = t2 \<and> mark s2 = mark s \<and>
       trace s2 = trace s @ [Report rfid_dev P_STATUS (PStr ''REMOVE_MODE''),
                             Report d1 P_REMOVE_MODE (PBool True),
                             Report rfid_dev P_STATUS (PStr ''ADD_MODE''),
                             Report d2 P_ADD_MODE (PBool True)]) \<and>
   \<not> (rfidAddMode (run_eeprom qs (power_up_eeprom e)) \<and>
      rfidRemoveMode (run_eeprom qs (power_up_eeprom e))) \<and>
   (let m2 = write_callback_eeprom RFID_MANAGER_NAME ''Mode'' (PInt 2) t2
               (write_callback_eeprom RFID_MANAGER_NAME ''Mode'' (PInt 1) t1 m)
    in rfidRemoveMode m2 \<and> \<not> rfidAddMode m2 \<and> rfidModeExpireAt m2 = t2 + RFID_MODE_TIMEOUT_MS \<and>
       sent m2 = sent m @ [Report RFID_MANAGER_NAME ''Mode'' (PInt 1),
                           Report RFID_MANAGER_NAME ''Mode'' (PInt 2)]) \<and>
   (let s3 = write_callback v d3 P_REMOVE_MODE True t3 q
    in removeMode s3 \<and> \<not> addMode s3 \<and> modeStartMs s3 = t3 \<and> mark s3 = mark q) \<and>
   (let s3 = write_callback v d3 P_ADD_MODE True t3 q
    in addMode s3 \<and> \<not> removeMode s3 \<and> modeStartMs s3 = t3 \<and> mark s3 = mark q)"
proof -
  have A: "\<not> (addMode (run v rs (power_up v p)) \<and> removeMode (run v rs (power_up v p)))"
    using run_excl [of "power_up v p" v rs] power_up_modes [of v p] by blast
  have B: "\<not> (rfidAddMode (run_eeprom qs (power_up_eeprom e)) \<and>
      rfidRemoveMode (run_eeprom qs (power_up_eeprom e)))"
    using run_eeprom_excl [of "power_up_eeprom e" qs] power_up_eeprom_modes [of e] by blast
  show ?thesis
    using A B
    by (simp add: write_callback_def write_callback_eeprom_def enterAddMode_def
        enterRemoveMode_def updateStatus_def emit_def emit_eeprom_def Let_def
        P_ADD_MODE_def P_REMOVE_MODE_def)
qed

text \<open>Witness for C7: add mode, then remove mode, from the idle and the power-up state.\<close>

theorem modes_exclusive_supersede_witness:
  "removeMode superseded \<and> \<not> addMode superseded \<and>
   \<not> (addMode (run Cloud [Write rfid_dev P_ADD_MODE True 0, Write rfid_dev P_REMOVE_MODE True 5]
                 (power_up Cloud Map.empty)) \<and>
      removeMode (run Cloud [Write rfid_dev P_ADD_MODE True 0, Write rfid_dev P_REMOVE_MODE True 5]
                 (power_up Cloud Map.empty)))"
  using modes_exclusive_supersede [of Cloud "[Write rfid_dev P_ADD_MODE True 0, Write rfid_dev P_REMOVE_MODE True 5]"
      Map.empty rfid_dev 20 rfid_dev 0 "run Cloud [Write rfid_dev (P_MARK Cloud 2) True 10] (write_callback Cloud rfid_dev P_ADD_MODE True 0 idle)"]
  by (simp add: superseded_def staged_def eval_write)

text \<open>
  Counterexample to C7 as stated: with the third mark staged in add mode, the request
  for remove mode leaves that mark set.
\<close>

theorem supersede_keeps_marks_Cloud:
  "addMode (staged Cloud) \<and> mark (staged Cloud) 2 \<and>
   removeMode superseded \<and> \<not> addMode superseded \<and> mark superseded 2"
  by (simp add: superseded_def staged_def eval_write)


section \<open>Mode timeout\<close>

lemma off_effects_no_beep: "filter is_beep (concat (map (off_effects v) xs)) = []"
  by (induction xs) (simp_all add: off_effects_def)

lemma mark_reports_no_beep: "filter is_beep (mark_reports v) = []"
  by (simp add: mark_reports_def filter_empty_conv del: P_MARK.simps)

lemma exit_reports_no_beep: "filter is_beep exit_reports = []"
  by (simp add: exit_reports_def)

lemma timeout3_beeps: "filter is_beep buzzer_timeout3 = [Beep 60, Beep 60, Beep 60]"
  by (simp add: buzzer_timeout3_def)

lemma exitToNormal_eq:
  "exitToNormal v f s =
     s\<lparr>addMode := False, removeMode := False, statusStr := ''NORMAL'',
       mark := (case v of Cloud \<Rightarrow> (\<lambda>j. if j < 8 then False else mark s j) | Single \<Rightarrow> mark s),
       trace := trace s @ exit_reports @ (case v of Cloud \<Rightarrow> mark_reports Cloud | Single \<Rightarrow> [])
                  @ (if f then buzzer_timeout3 else [])\<rparr>"
  by (cases v) (simp_all add: exitToNormal_Cloud exitToNormal_Single)

lemma pulse_effects_no_beep: "filter is_beep (concat (map (pulse_effects v) xs)) = []"
  by (induction xs) (simp_all add: pulse_effects_def)

lemma scan_normal_beeps:
  "addMode (scan_normal v u clk q) = addMode q \<and> removeMode (scan_normal v u clk q) = removeMode q \<and>
   statusStr (scan_normal v u clk q) = statusStr q \<and>
   (\<exists>es. trace (scan_normal v u clk q) = trace q @ es \<and>
      filter is_beep es =
        (if findCardIndex (cards q) u \<ge> 0 \<and> mask (cards q ! nat (findCardIndex (cards q) u)) \<noteq> 0
         then [Beep 200] else [Beep 60]) \<and>
      filter (\<lambda>e. e = Pause 80) es = [])"
  by (simp add: scan_normal_def Let_def mask_test_pow pulse_fold updateLastAccessParam_def emit_def
      pulse_effects_no_beep buzzer_granted_def buzzer_denied_def filter_empty_conv pulse_effects_def)

lemma elapsed_ge: "d < 2 ^ 32 \<Longrightarrow> (MODE_TIMEOUT_MS \<le> (t + of_nat d) - t) = (15000 \<le> d)"
  using w_le [of d] by (simp add: MODE_TIMEOUT_MS_def)

lemma sweep_no_marker:
  "filter (\<lambda>e. e = Pause 80) (concat (map (off_effects v) xs)) = []"
  by (induction xs) (simp_all add: off_effects_def)

lemma loop_early:
  assumes "d < 2 ^ 32" "d < 15000"
  shows "addMode (loop v (modeStartMs s + of_nat d) None s) = addMode s \<and>
         removeMode (loop v (modeStartMs s + of_nat d) None s) = removeMode s \<and>
         modeStartMs (loop v (modeStartMs s + of_nat d) None s) = modeStartMs s \<and>
         filter is_beep (drop (length (trace s)) (trace (loop v (modeStartMs s + of_nat d) None s))) = []"
proof -
  have "\<not> MODE_TIMEOUT_MS \<le> (modeStartMs s + of_nat d) - modeStartMs s"
    using assms elapsed_ge [OF assms(1), of "modeStartMs s"] by simp
  then have "loop v (modeStartMs s + of_nat d) None s = loop_sweep v (modeStartMs s + of_nat d) s"
    by (simp add: loop_def Let_def loop_timeout_def loop_sweep_eq)
  then show ?thesis by (simp add: loop_sweep_eq off_effects_no_beep)
qed

lemma loop_expired:
  assumes "addMode s \<or> removeMode s" "d < 2 ^ 32" "15000 \<le> d"
  defines "now \<equiv> modeStartMs s + of_nat d"
  shows "\<not> addMode (loop v now scan s) \<and> \<not> removeMode (loop v now scan s) \<and>
         statusStr (loop v now scan s) = ''NORMAL'' \<and>
         Report rfid_dev P_STATUS (PStr ''NORMAL'')
           \<in> set (drop (length (trace s)) (trace (loop v now scan s))) \<and>
         filter is_beep (drop (length (trace s)) (trace (loop v now scan s))) =
           [Beep 60, Beep 60, Beep 60] @
           (case scan of None \<Rightarrow> []
            | Some (u, clk) \<Rightarrow>
                if findCardIndex (cards s) u \<ge> 0 \<and> mask (cards s ! nat (findCardIndex (cards s) u)) \<noteq> 0
                then [Beep 200] else [Beep 60]) \<and>
         filter (\<lambda>e. e = Pause 80) (drop (length (trace s)) (trace (loop v now scan s)))
           = [Pause 80, Pause 80] \<and>
         (scan = None \<longrightarrow>
            trace (loop v now scan s) = trace (loop_sweep v now s) @ exit_reports
              @ (case v of Cloud \<Rightarrow> mark_reports Cloud | Single \<Rightarrow> []) @ buzzer_timeout3)"
proof -
  define s1 where "s1 = loop_sweep v now s"
  define x where "x = exitToNormal v True s1"
  have s1: "addMode s1 = addMode s" "removeMode s1 = removeMode s" "modeStartMs s1 = modeStartMs s"
    "cards s1 = cards s"
    "trace s1 = trace s @ concat (map (off_effects v) (filter (\<lambda>j. due now (relayOffAt s j)) [0..<8]))"
    by (simp_all add: s1_def loop_sweep_eq)
  have fire: "MODE_TIMEOUT_MS \<le> now - modeStartMs s1"
    using assms(3) elapsed_ge [OF assms(2), of "modeStartMs s"] by (simp add: now_def s1(3))
  have lt: "loop_timeout v now s1 = x"
    using assms(1) fire s1 by (simp add: loop_timeout_def x_def)
  have x: "\<not> addMode x" "\<not> removeMode x" "statusStr x = ''NORMAL''" "cards x = cards s"
    "trace x = trace s1 @ exit_reports @ (case v of Cloud \<Rightarrow> mark_reports Cloud | Single \<Rightarrow> [])
                 @ buzzer_timeout3"
    by (simp_all add: x_def exitToNormal_eq s1(4))
  have xb: "filter is_beep (drop (length (trace s)) (trace x)) = [Beep 60, Beep 60, Beep 60]"
    unfolding x(5) s1(5)
    by (cases v) (simp_all add: off_effects_no_beep mark_reports_no_beep exit_reports_no_beep
        timeout3_beeps)
  have xp: "filter (\<lambda>e. e = Pause 80) (drop (length (trace s)) (trace x)) = [Pause 80, Pause 80]"
    unfolding x(5) s1(5)
    by (cases v) (simp_all add: sweep_no_marker exit_reports_def mark_reports_def
        buzzer_timeout3_def filter_empty_conv del: P_MARK.simps)
  have xr: "Report rfid_dev P_STATUS (PStr ''NORMAL'') \<in> set (drop (length (trace s)) (trace x))"
    unfolding x(5) s1(5) by (simp add: exit_reports_def)
  have len: "length (trace s) \<le> length (trace x)" by (simp add: x(5) s1(5))
  show ?thesis
  proof (cases scan)
    case None
    then have e: "loop v now scan s = x"
      by (simp add: loop_def Let_def s1_def [symmetric] lt)
    from None x xb xp xr show ?thesis unfolding e by (simp add: s1_def)
  next
    case (Some p)
    obtain u clk where p: "p = (u, clk)" by (cases p)
    have e: "loop v now scan s = scan_normal v u clk x"
      using Some p x(1,2) by (simp add: loop_def Let_def s1_def [symmetric] lt loop_scan_def)
    from scan_normal_beeps [of v u clk x] obtain es where es:
      "trace (scan_normal v u clk x) = trace x @ es"
      "filter is_beep es =
        (if findCardIndex (cards x) u \<ge> 0 \<and> mask (cards x ! nat (findCardIndex (cards x) u)) \<noteq> 0
         then [Beep 200] else [Beep 60])"
      "filter (\<lambda>e. e = Pause 80) es = []"
      and keep: "addMode (scan_normal v u clk x) = addMode x"
        "removeMode (scan_normal v u clk x) = removeMode x"
        "statusStr (scan_normal v u clk x) = statusStr x"
      by blast
    have d: "drop (length (trace s)) (trace x @ es) = drop (length (trace s)) (trace x) @ es"
      using len by simp
    from Some p x(1-4) keep es(2,3) xb xp xr show ?thesis
      unfolding e es(1) d by simp
  qed
qed

lemma loop_normal_quiet:
  assumes "\<not> addMode q" "\<not> removeMode q"
  shows "\<not> addMode (loop v t None q) \<and> \<not> removeMode (loop v t None q) \<and>
         filter is_beep (drop (length (trace q)) (trace (loop v t None q))) = []"
  using assms by (simp add: loop_def Let_def loop_timeout_def loop_sweep_eq off_effects_no_beep)


lemma eeprom_elapsed:
  assumes "unat t0 + 30000 < 2 ^ 32" "unat t0 + k < 2 ^ 32"
  shows "(t0 + RFID_MODE_TIMEOUT_MS < t0 + of_nat k) = (30000 < k)"
proof -
  have a: "unat (t0 + of_nat k) = unat t0 + k" by (rule w_add [OF assms(2)])
  have "unat (t0 + of_nat 30000) = unat t0 + 30000" by (rule w_add [OF assms(1)])
  then have b: "unat (t0 + RFID_MODE_TIMEOUT_MS) = unat t0 + 30000"
    by (simp add: RFID_MODE_TIMEOUT_MS_def)
  show ?thesis by (simp add: word_less_nat_alt a b)
qed

lemma loop_eeprom_none:
  "loop_eeprom clk None m = loop_relay9 (clk 3) (loop_timeout_eeprom (clk 2) (loop_report clk m))"
  by (simp add: loop_eeprom_def Let_def)

lemma loop_report_quiet:
  "rfidModeExpireAt (loop_report clk m) = rfidModeExpireAt m \<and>
   (\<exists>es. sent (loop_report clk m) = sent m @ es \<and> filter is_beep es = [] \<and>
         Report RFID_MANAGER_NAME ''Mode'' (PInt 0) \<notin> set es)"
  by (auto simp: loop_report_def emit_eeprom_def filter_empty_conv)

lemma loop_relay9_quiet:
  "rfidModeExpireAt (loop_relay9 now m) = rfidModeExpireAt m \<and>
   (\<exists>es. sent (loop_relay9 now m) = sent m @ es \<and> filter is_beep es = [] \<and>
         Report RFID_MANAGER_NAME ''Mode'' (PInt 0) \<notin> set es)"
  by (simp add: loop_relay9_def setRelay9_def emit_eeprom_def)

lemma loop_eeprom_timeout:
  assumes "rfidAddMode m \<or> rfidRemoveMode m" "rfidModeExpireAt m = t0 + RFID_MODE_TIMEOUT_MS"
    "unat t0 + 30000 < 2 ^ 32" "unat t0 + k < 2 ^ 32" "clk 2 = t0 + of_nat k"
  shows "filter is_beep (drop (length (sent m)) (sent (loop_eeprom clk None m))) = [] \<and>
         (k \<le> 30000 \<longrightarrow>
            rfidAddMode (loop_eeprom clk None m) = rfidAddMode m \<and>
            rfidRemoveMode (loop_eeprom clk None m) = rfidRemoveMode m \<and>
            rfidModeExpireAt (loop_eeprom clk None m) = rfidModeExpireAt m \<and>
            Report RFID_MANAGER_NAME ''Mode'' (PInt 0)
              \<notin> set (drop (length (sent m)) (sent (loop_eeprom clk None m)))) \<and>
         (30000 < k \<longrightarrow>
            \<not> rfidAddMode (loop_eeprom clk None m) \<and> \<not> rfidRemoveMode (loop_eeprom clk None m) \<and>
            filter (\<lambda>x. x = Report RFID_MANAGER_NAME ''Mode'' (PInt 0))
              (drop (length (sent m)) (sent (loop_eeprom clk None m)))
              = [Report RFID_MANAGER_NAME ''Mode'' (PInt 0)])"
proof -
  define s1 where "s1 = loop_report clk m"
  define s3 where "s3 = loop_timeout_eeprom (clk 2) s1"
  from loop_report_quiet [of clk m] obtain e1 where e1:
    "sent s1 = sent m @ e1" "filter is_beep e1 = []"
    "Report RFID_MANAGER_NAME ''Mode'' (PInt 0) \<notin> set e1"
    and x1: "rfidModeExpireAt s1 = rfidModeExpireAt m"
    unfolding s1_def by blast
  have m1: "rfidAddMode s1 = rfidAddMode m" "rfidRemoveMode s1 = rfidRemoveMode m"
    by (simp_all add: s1_def loop_report_keeps)
  from loop_relay9_quiet [of "clk 3" s3] obtain e3 where e3:
    "sent (loop_relay9 (clk 3) s3) = sent s3 @ e3" "filter is_beep e3 = []"
    "Report RFID_MANAGER_NAME ''Mode'' (PInt 0) \<notin> set e3"
    and x3: "rfidModeExpireAt (loop_relay9 (clk 3) s3) = rfidModeExpireAt s3"
    by blast
  have fire: "(rfidModeExpireAt s1 < clk 2) = (30000 < k)"
    using eeprom_elapsed [OF assms(3,4)] by (simp add: x1 assms(2,5))
  have e: "loop_eeprom clk None m = loop_relay9 (clk 3) s3"
    by (simp add: loop_eeprom_none s1_def s3_def)
  have f1: "filter (\<lambda>x. x = Report RFID_MANAGER_NAME ''Mode'' (PInt 0)) e1 = []"
    using e1(3) by (auto simp: filter_empty_conv)
  have f3: "filter (\<lambda>x. x = Report RFID_MANAGER_NAME ''Mode'' (PInt 0)) e3 = []"
    using e3(3) by (auto simp: filter_empty_conv)
  show ?thesis
  proof (cases "30000 < k")
    case True
    with fire assms(1) m1 have s3: "s3 = emit_eeprom [Report RFID_MANAGER_NAME ''Mode'' (PInt 0)]
             (s1\<lparr>rfidAddMode := False, rfidRemoveMode := False\<rparr>)"
      by (simp add: s3_def loop_timeout_eeprom_def)
    have t3: "sent s3 = sent m @ e1 @ [Report RFID_MANAGER_NAME ''Mode'' (PInt 0)]"
      by (simp add: s3 emit_eeprom_def e1(1))
    have t: "sent (loop_relay9 (clk 3) s3) = sent m @ e1 @ [Report RFID_MANAGER_NAME ''Mode'' (PInt 0)] @ e3"
      unfolding e3(1) t3 by simp
    have m3: "\<not> rfidAddMode s3" "\<not> rfidRemoveMode s3"
      by (simp_all add: s3 emit_eeprom_def)
    have md: "\<not> rfidAddMode (loop_relay9 (clk 3) s3)" "\<not> rfidRemoveMode (loop_relay9 (clk 3) s3)"
      using m3 by (simp_all add: loop_relay9_keeps)
    from True md show ?thesis unfolding e t by (simp add: e1(2) e3(2) f1 f3)
  next
    case False
    with fire have s3: "s3 = s1" by (simp add: s3_def loop_timeout_eeprom_def)
    have t: "sent (loop_relay9 (clk 3) s3) = sent m @ e1 @ e3"
      using e3(1) by (simp add: s3 e1(1))
    have k3: "rfidAddMode (loop_relay9 (clk 3) s3) = rfidAddMode m"
      "rfidRemoveMode (loop_relay9 (clk 3) s3) = rfidRemoveMode m"
      "rfidModeExpireAt (loop_relay9 (clk 3) s3) = rfidModeExpireAt m"
      using m1 x1 x3 by (simp_all add: loop_relay9_keeps s3)
    from False k3 show ?thesis
      unfolding e t by (simp add: e1(2,3) e3(2,3))
  qed
qed

lemma mode_write_eeprom:
  "(let m1 = write_callback_eeprom RFID_MANAGER_NAME ''Mode'' (PInt 1) t0 m0
    in rfidAddMode m1 \<and> \<not> rfidRemoveMode m1 \<and> rfidModeExpireAt m1 = t0 + RFID_MODE_TIMEOUT_MS) \<and>
   (let m2 = write_callback_eeprom RFID_MANAGER_NAME ''Mode'' (PInt 2) t0 m0
    in rfidRemoveMode m2 \<and> \<not> rfidAddMode m2 \<and> rfidModeExpireAt m2 = t0 + RFID_MODE_TIMEOUT_MS)"
  by (simp add: write_callback_eeprom_def Let_def emit_eeprom_def)

lemma mode_enter:
  "addMode (enterAddMode t s0) \<and> \<not> removeMode (enterAddMode t s0) \<and>
   modeStartMs (enterAddMode t s0) = t \<and>
   removeMode (enterRemoveMode t s0) \<and> \<not> addMode (enterRemoveMode t s0) \<and>
   modeStartMs (enterRemoveMode t s0) = t"
  by (simp add: enterAddMode_def enterRemoveMode_def updateStatus_def emit_def)

text \<open>
  C3 (as amended). NVS sketches: entering Enroll or Unenroll records the entry time.
  While such a mode is active, a loop pass that reads the clock \<open>d\<close> ms after the entry
  (\<open>d < 2^32\<close>; the elapsed time is the difference of the two readings modulo \<open>2^32\<close>)
  with \<open>d < 15000\<close> keeps the mode and the entry time and sounds nothing; a pass with
  \<open>d \<ge> 15000\<close> returns to Normal and reports the status \<^verbatim>\<open>NORMAL\<close>, whether or not an identifier is
  presented in that pass, and sounds the timeout pattern exactly once: three beeps of
  60 ms separated by two pauses of 80 ms, followed only by the verdict beep of an
  identifier presented in the same pass. A pass in Normal with no identifier sounds
  nothing, so the pattern is not repeated. The timeout pattern differs from the add,
  remove, granted and denied patterns. EEPROM sketch: a \<^verbatim>\<open>Mode\<close> write of 1 or 2 at time
  \<open>t0\<close> sets the expiry to \<open>t0 + 30000\<close>; provided neither \<open>t0 + 30000\<close> nor the clock
  reading \<open>t0 + k\<close> of the pass rolls over \<open>2^32\<close>, a pass with \<open>k \<le> 30000\<close> keeps the mode
  and one with \<open>k > 30000\<close> ends it, reporting \<^verbatim>\<open>Mode = 0\<close> once; neither sounds anything.
\<close>

theorem timeout_reverts:
  assumes "addMode s \<or> removeMode s" and "d < 2 ^ 32"
  shows "(addMode (enterAddMode t s0) \<and> \<not> removeMode (enterAddMode t s0) \<and>
          modeStartMs (enterAddMode t s0) = t \<and>
          removeMode (enterRemoveMode t s0) \<and> \<not> addMode (enterRemoveMode t s0) \<and>
          modeStartMs (enterRemoveMode t s0) = t) \<and>
         (d < 15000 \<longrightarrow>
            (let s' = loop v (modeStartMs s + of_nat d) None s
             in addMode s' = addMode s \<and> removeMode s' = removeMode s \<and>
                modeStartMs s' = modeStartMs s \<and>
                filter is_beep (drop (length (trace s)) (trace s')) = [])) \<and>
         (15000 \<le> d \<longrightarrow>
            (let now = modeStartMs s + of_nat d; s' = loop v now scan s
             in \<not> addMode s' \<and> \<not> removeMode s' \<and> statusStr s' = ''NORMAL'' \<and>
                Report rfid_dev P_STATUS (PStr ''NORMAL'')
                  \<in> set (drop (length (trace s)) (trace s')) \<and>
                filter is_beep (drop (length (trace s)) (trace s')) =
                  [Beep 60, Beep 60, Beep 60] @
                  (case scan of None \<Rightarrow> []
                   | Some (u, clk) \<Rightarrow>
                       if findCardIndex (cards s) u \<ge> 0 \<and>
                          mask (cards s ! nat (findCardIndex (cards s) u)) \<noteq> 0
                       then [Beep 200] else [Beep 60]) \<and>
                filter (\<lambda>e. e = Pause 80) (drop (length (trace s)) (trace s')) = [Pause 80, Pause 80] \<and>
                (scan = None \<longrightarrow>
                   trace s' = trace (loop_sweep v now s) @ exit_reports
                     @ (case v of Cloud \<Rightarrow> mark_reports Cloud | Single \<Rightarrow> []) @ buzzer_timeout3))) \<and>
         (\<not> addMode q \<and> \<not> removeMode q \<longrightarrow>
            (let q' = loop v later None q
             in \<not> addMode q' \<and> \<not> removeMode q' \<and>
                filter is_beep (drop (length (trace q)) (trace q')) = [])) \<and>
         buzzer_timeout3 \<notin> {buzzer_add, buzzer_remove, buzzer_granted, buzzer_denied} \<and>
         (let m1 = write_callback_eeprom RFID_MANAGER_NAME ''Mode'' (PInt 1) t0 m0
          in rfidAddMode m1 \<and> \<not> rfidRemoveMode m1 \<and>
             rfidModeExpireAt m1 = t0 + RFID_MODE_TIMEOUT_MS) \<and>
         (let m2 = write_callback_eeprom RFID_MANAGER_NAME ''Mode'' (PInt 2) t0 m0
          in rfidRemoveMode m2 \<and> \<not> rfidAddMode m2 \<and>
             rfidModeExpireAt m2 = t0 + RFID_MODE_TIMEOUT_MS) \<and>
         ((rfidAddMode m \<or> rfidRemoveMode m) \<and> rfidModeExpireAt m = t0 + RFID_MODE_TIMEOUT_MS \<and>
          unat t0 + 30000 < 2 ^ 32 \<and> unat t0 + k < 2 ^ 32 \<and> ck 2 = t0 + of_nat k \<longrightarrow>
            (let m' = loop_eeprom ck None m; new = drop (length (sent m)) (sent m')
             in filter is_beep new = [] \<and>
                (k \<le> 30000 \<longrightarrow>
                   rfidAddMode m' = rfidAddMode m \<and> rfidRemoveMode m' = rfidRemoveMode m \<and>
                   rfidModeExpireAt m' = rfidModeExpireAt m \<and>
                   Report RFID_MANAGER_NAME ''Mode'' (PInt 0) \<notin> set new) \<and>
                (30000 < k \<longrightarrow>
                   \<not> rfidAddMode m' \<and> \<not> rfidRemoveMode m' \<and>
                   filter (\<lambda>x. x = Report RFID_MANAGER_NAME ''Mode'' (PInt 0)) new
                     = [Report RFID_MANAGER_NAME ''Mode'' (PInt 0)])))"
proof -
  note A = mode_enter [of t s0]
  have B: "d < 15000 \<longrightarrow>
            (let s' = loop v (modeStartMs s + of_nat d) None s
             in addMode s' = addMode s \<and> removeMode s' = removeMode s \<and>
                modeStartMs s' = modeStartMs s \<and>
                filter is_beep (drop (length (trace s)) (trace s')) = [])"
    using loop_early [OF assms(2), of v s] by (simp add: Let_def)
  have C: "15000 \<le> d \<longrightarrow>
            (let now = modeStartMs s + of_nat d; s' = loop v now scan s
             in \<not> addMode s' \<and> \<not> removeMode s' \<and> statusStr s' = ''NORMAL'' \<and>
                Report rfid_dev P_STATUS (PStr ''NORMAL'')
                  \<in> set (drop (length (trace s)) (trace s')) \<and>
                filter is_beep (drop (length (trace s)) (trace s')) =
                  [Beep 60, Beep 60, Beep 60] @
                  (case scan of None \<Rightarrow> []
                   | Some (u, clk) \<Rightarrow>
                       if findCardIndex (cards s) u \<ge> 0 \<and>
                          mask (cards s ! nat (findCardIndex (cards s) u)) \<noteq> 0
                       then [Beep 200] else [Beep 60]) \<and>
                filter (\<lambda>e. e = Pause 80) (drop (length (trace s)) (trace s')) = [Pause 80, Pause 80] \<and>
                (scan = None \<longrightarrow>
                   trace s' = trace (loop_sweep v now s) @ exit_reports
                     @ (case v of Cloud \<Rightarrow> mark_reports Cloud | Single \<Rightarrow> []) @ buzzer_timeout3))"
    unfolding Let_def using loop_expired [OF assms, of v scan] by blast
  have D: "\<not> addMode q \<and> \<not> removeMode q \<longrightarrow>
            (let q' = loop v later None q
             in \<not> addMode q' \<and> \<not> removeMode q' \<and>
                filter is_beep (drop (length (trace q)) (trace q')) = [])"
    unfolding Let_def using loop_normal_quiet [of q v later] by blast
  have E: "buzzer_timeout3 \<notin> {buzzer_add, buzzer_remove, buzzer_granted, buzzer_denied}"
    by (simp add: buzzer_timeout3_def buzzer_add_def buzzer_remove_def buzzer_granted_def
        buzzer_denied_def)
  note F = mode_write_eeprom [of t0 m0]
  have G: "(rfidAddMode m \<or> rfidRemoveMode m) \<and> rfidModeExpireAt m = t0 + RFID_MODE_TIMEOUT_MS \<and>
          unat t0 + 30000 < 2 ^ 32 \<and> unat t0 + k < 2 ^ 32 \<and> ck 2 = t0 + of_nat k \<longrightarrow>
            (let m' = loop_eeprom ck None m; new = drop (length (sent m)) (sent m')
             in filter is_beep new = [] \<and>
                (k \<le> 30000 \<longrightarrow>
                   rfidAddMode m' = rfidAddMode m \<and> rfidRemoveMode m' = rfidRemoveMode m \<and>
                   rfidModeExpireAt m' = rfidModeExpireAt m \<and>
                   Report RFID_MANAGER_NAME ''Mode'' (PInt 0) \<notin> set new) \<and>
                (30000 < k \<longrightarrow>
                   \<not> rfidAddMode m' \<and> \<not> rfidRemoveMode m' \<and>
                   filter (\<lambda>x. x = Report RFID_MANAGER_NAME ''Mode'' (PInt 0)) new
                     = [Report RFID_MANAGER_NAME ''Mode'' (PInt 0)]))"
    unfolding Let_def using loop_eeprom_timeout [of m t0 k ck] by blast
  from A B C D E F G show ?thesis by (intro conjI) blast+
qed

text \<open>
  Witness for C3: add mode entered at time 0 in the cloud sketch; the pass at 14999 keeps
  it silently, the pass at 15000 leaves it with three beeps; a pass in Normal is silent;
  in the EEPROM sketch the mode entered at 0 is gone after the pass at 40000.
\<close>

theorem timeout_reverts_witness:
  "addMode (staged Cloud) \<and> modeStartMs (staged Cloud) = 0 \<and>
   addMode (loop Cloud 14999 None (staged Cloud)) \<and>
   filter is_beep (drop (length (trace (staged Cloud))) (trace (loop Cloud 14999 None (staged Cloud)))) = [] \<and>
   \<not> addMode (loop Cloud 15000 None (staged Cloud)) \<and>
   \<not> removeMode (loop Cloud 15000 None (staged Cloud)) \<and>
   filter is_beep (drop (length (trace (staged Cloud))) (trace (loop Cloud 15000 None (staged Cloud))))
     = [Beep 60, Beep 60, Beep 60] \<and>
   \<not> addMode (loop Cloud 7 None idle) \<and>
   rfidAddMode armed_eeprom \<and>
   \<not> rfidAddMode (loop_eeprom (\<lambda>_. 40000) None armed_eeprom) \<and>
   filter is_beep (drop (length (sent armed_eeprom))
     (sent (loop_eeprom (\<lambda>_. 40000) None armed_eeprom))) = []"
proof -
  have h: "addMode (staged Cloud) \<or> removeMode (staged Cloud)" by (simp add: staged_Cloud)
  have ms: "modeStartMs (staged Cloud) = 0" by (simp add: staged_def eval_write)
  have a: "rfidAddMode armed_eeprom" "rfidModeExpireAt armed_eeprom = 0 + RFID_MODE_TIMEOUT_MS"
    by (simp_all add: armed_eeprom_def write_callback_eeprom_def Let_def emit_eeprom_def)
  have i: "\<not> addMode idle \<and> \<not> removeMode idle" by (simp add: idle_def)
  have d1: "(15000::nat) < 2 ^ 32" and d2: "(14999::nat) < 2 ^ 32" by simp_all
  note r = timeout_reverts [OF h d1, where v = Cloud and scan = None and q = idle and later = 7
      and m = armed_eeprom and ?t0.0 = 0 and k = 40000 and ck = "\<lambda>_. 40000"]
  note e = timeout_reverts [OF h d2, where v = Cloud]
  have eq: "modeStartMs (staged Cloud) + of_nat 15000 = (15000::u32)" by (simp add: ms)
  note rc = r [THEN conjunct2, THEN conjunct2, THEN conjunct1, THEN mp, OF le_refl,
      unfolded Let_def eq, simplified]
  have late: "\<not> addMode (loop Cloud 15000 None (staged Cloud)) \<and>
   \<not> removeMode (loop Cloud 15000 None (staged Cloud)) \<and>
   filter is_beep (drop (length (trace (staged Cloud))) (trace (loop Cloud 15000 None (staged Cloud))))
     = [Beep 60, Beep 60, Beep 60]"
    using rc by blast
  have quiet: "\<not> addMode (loop Cloud 7 None idle)"
    using r i by (simp add: Let_def)
  have ee: "\<not> rfidAddMode (loop_eeprom (\<lambda>_. 40000) None armed_eeprom) \<and>
     filter is_beep (drop (length (sent armed_eeprom))
       (sent (loop_eeprom (\<lambda>_. 40000) None armed_eeprom))) = []"
    using r a by (simp add: Let_def)
  have early: "addMode (loop Cloud 14999 None (staged Cloud)) \<and>
   filter is_beep (drop (length (trace (staged Cloud))) (trace (loop Cloud 14999 None (staged Cloud)))) = []"
    using e staged_Cloud by (simp add: Let_def ms)
  from late quiet ee early a(1) ms staged_Cloud show ?thesis by simp
qed

text \<open>
  Counterexample to C3 as stated: in the EEPROM sketch, add mode entered at time 0
  expires at 30000; the pass at 30000 leaves the mode active, and the pass at 30001
  ends it without a single beep.
\<close>

theorem timeout_silent_eeprom:
  "rfidAddMode armed_eeprom \<and> rfidModeExpireAt armed_eeprom = 30000 \<and>
   rfidAddMode (loop_eeprom (\<lambda>_. 30000) None armed_eeprom) \<and>
   \<not> rfidAddMode (loop_eeprom (\<lambda>_. 30001) None armed_eeprom) \<and>
   \<not> rfidRemoveMode (loop_eeprom (\<lambda>_. 30001) None armed_eeprom) \<and>
   filter is_beep (sent (loop_eeprom (\<lambda>_. 30001) None armed_eeprom)) = []"
  by code_simp


section \<open>Manual switching\<close>









lemma P_RELAY_inj: "P_RELAY v i = P_RELAY v j \<Longrightarrow> i = j"
proof -
  assume "P_RELAY v i = P_RELAY v j"
  then have "dec (i + 1) = dec (j + 1)" by (cases v) simp_all
  from dec_inj [OF this] show ?thesis by simp
qed

lemma find_relay: "i < 8 \<Longrightarrow> List.find (\<lambda>j. P_RELAY v i = P_RELAY v j) [0..<8] = Some i"
  by (auto simp: find_upt_Some dest: P_RELAY_inj)


lemma relay_write_sets_mark_Cloud:
  "i < 8 \<Longrightarrow> write_callback Cloud dev (P_RELAY Cloud i) b t s =
     emit [Report dev (P_RELAY Cloud i) (PBool b)] (s\<lparr>mark := (mark s)(i := b)\<rparr>)"
proof -
  assume i: "i < 8"
  have 1: "List.find (\<lambda>j. P_RELAY Cloud i = P_MARK Cloud j) [0..<8] = Some i"
    using find_relay [OF i, of Cloud] by simp
  have 2: "P_RELAY Cloud i \<noteq> P_ADD_MODE" "P_RELAY Cloud i \<noteq> P_REMOVE_MODE"
    by (simp_all add: P_ADD_MODE_def P_REMOVE_MODE_def)
  show ?thesis
    unfolding write_callback_def using 1 2
    by (simp del: P_RELAY.simps P_MARK.simps)
qed





















section \<open>Zero-length identifiers\<close>

text \<open>
  C9 (as amended). In the EEPROM sketch a zero-length scanned identifier is ignored
  entirely, whatever the mode: \<^verbatim>\<open>processUID\<close> returns the state as it was (no EEPROM
  write, no log entry, no relay, no buzzer, no report), and a loop pass that delivers it
  equals a pass without a scan.
\<close>

theorem empty_uid_ignored_eeprom:
  "processUID [] c s = s \<and> loop_eeprom clk (Some ([], c)) s = loop_eeprom clk None s"
  by (simp add: processUID_def loop_eeprom_def)

text \<open>Witness for C9: the empty identifier scanned in add mode.\<close>

theorem empty_uid_ignored_eeprom_witness:
  "processUID [] (\<lambda>_. 7) armed_eeprom = armed_eeprom"
  using empty_uid_ignored_eeprom [of "\<lambda>_. 7" armed_eeprom] by simp

text \<open>
  Counterexample to C9 as stated: the scan branch of the cloud sketch has no length
  test; a zero-length identifier is reported as denied with the denied beep in Normal
  mode, and is enrolled in add mode.
\<close>

theorem empty_uid_processed_Cloud:
  "trace (loop_scan Cloud [] (\<lambda>_. 0) idle) = [ReportLastAccess [] False 0, Beep 60] \<and>
   cards (loop_scan Cloud [] (\<lambda>_. 0) (staged Cloud)) = [\<lparr>uid = [], mask = 4\<rparr>]"
  by code_simp


section \<open>Enrolling\<close>


lemma findCardIndex_none:
  "\<forall>i<length cs. uid (cs ! i) \<noteq> u \<Longrightarrow> findCardIndex cs u = - 1"
  using findCardIndex_cases [of cs u] by auto

lemma uid_mask_update: "map uid (cs[i := (cs ! i)\<lparr>mask := m\<rparr>]) = map uid cs"
proof (rule nth_equalityI)
  show "length (map uid (cs[i := (cs ! i)\<lparr>mask := m\<rparr>])) = length (map uid cs)" by simp
next
  fix k assume "k < length (map uid (cs[i := (cs ! i)\<lparr>mask := m\<rparr>]))"
  then have k: "k < length cs" by simp
  then show "map uid (cs[i := (cs ! i)\<lparr>mask := m\<rparr>]) ! k = map uid cs ! k"
    by (cases "k = i") (simp_all add: nth_list_update)
qed

lemma uid_set_mask_update: "uid ` set (cs[i := (cs ! i)\<lparr>mask := m\<rparr>]) = uid ` set cs"
  using uid_mask_update [of cs i m] by (metis set_map)

lemma scan_add_cards:
  "cards (scan_add u s) =
     (if findCardIndex (cards s) u \<ge> 0
      then (cards s)[nat (findCardIndex (cards s) u) :=
                       (cards s ! nat (findCardIndex (cards s) u))\<lparr>mask := currentMarkMask (mark s)\<rparr>]
      else if length (cards s) < MAX_CARDS
      then cards s @ [\<lparr>uid = u, mask = currentMarkMask (mark s)\<rparr>]
      else cards s)"
  by (simp add: scan_add_def Let_def updateListCardsParam_def updateLastAccessParam_def emit_def)



lemma exitToNormal_cards: "cards (exitToNormal v f s) = cards s \<and> prefs (exitToNormal v f s) = prefs s"
  by (simp add: exitToNormal_eq)


lemma staged_marks: "currentMarkMask (mark (staged Cloud)) = 4"
  by (simp add: staged_def eval_write currentMarkMask_def)

section \<open>Capacity\<close>

lemma write_fold:
  "fold (\<lambda>i m. m(base + i := f i)) [0..<n] e a =
     (if base \<le> a \<and> a < base + n then f (a - base) else e a)"
  by (induction n) auto

lemma storeCardSlot_at:
  "storeCardSlot idx u e a =
     (let base = CARD_START_ADDR + idx * CARD_SLOT_BYTES in
      if base \<le> a \<and> a < base + CARD_SLOT_BYTES
      then (if a - base < length u then of_char (u ! (a - base)) else 0)
      else e a)"
  by (simp add: storeCardSlot_def Let_def write_fold)

lemma storeCardSlot_count: "getCardCount (storeCardSlot idx u e) = getCardCount e"
  by (simp add: getCardCount_def storeCardSlot_at CARD_START_ADDR_def)

lemma store_fold_count:
  "getCardCount (fold (\<lambda>i m. storeCardSlot i (readCardSlot (i + 1) m) m) xs e) = getCardCount e"
  by (induction xs arbitrary: e) (simp_all add: storeCardSlot_count)

lemma getCardCount_set: "c < 256 \<Longrightarrow> getCardCount (setCardCount c e) = c"
  by (simp add: getCardCount_def setCardCount_def unat_of_nat)

lemma addCard_capacity:
  assumes "getCardCount e \<le> MAX_CARDS_eeprom"
  shows "getCardCount (fst (addCard u e)) \<le> MAX_CARDS_eeprom"
  using assms
  by (auto simp: addCard_def Let_def getCardCount_set MAX_CARDS_eeprom_def)

lemma addCard_full:
  "getCardCount e \<ge> MAX_CARDS_eeprom \<Longrightarrow> findCardIndex_eeprom e u < 0 \<Longrightarrow> addCard u e = (e, - 1)"
  by (simp add: addCard_def Let_def)

lemma removeCard_capacity:
  assumes "getCardCount e \<le> MAX_CARDS_eeprom"
  shows "getCardCount (fst (removeCard u e)) \<le> MAX_CARDS_eeprom"
proof (cases "findCardIndex_eeprom e u < 0")
  case True
  with assms show ?thesis by (simp add: removeCard_def)
next
  case False
  have "getCardCount e - 1 < 256" using assms by (simp add: MAX_CARDS_eeprom_def)
  from getCardCount_set [OF this] False assms show ?thesis
    by (simp add: removeCard_def Let_def)
qed

lemma write_fold_other:
  "\<forall>i \<in> set xs. g i \<noteq> a \<Longrightarrow> fold (\<lambda>i m. m(g i := f i)) xs e a = e a"
  by (induction xs arbitrary: e) auto

lemma pushLog_eeprom_low:
  assumes "a < LOG_START_ADDR"
  shows "eeprom (pushLog ev idx u t s) a = eeprom s a"
proof -
  define eaddr where "eaddr = LOG_START_ADDR +
     (if (logPos s + 1) mod MAX_LOGS = 0 then MAX_LOGS - 1 else (logPos s + 1) mod MAX_LOGS - 1)
       * LOG_ENTRY_BYTES"
  have ge: "a < eaddr" using assms by (simp add: eaddr_def)
  then have "\<forall>i \<in> set [0..<6]. eaddr + 6 + i \<noteq> a" by auto
  then have w: "fold (\<lambda>i m. m(eaddr + 6 + i := f i)) [0..<6] e a = e a"
    for f :: "nat \<Rightarrow> u8" and e
    by (rule write_fold_other)
  from ge show ?thesis
    unfolding pushLog_def Let_def eaddr_def [symmetric]
    by (simp add: w)
qed

lemma pushLog_count:
  "getCardCount (eeprom (pushLog ev idx u t s)) = getCardCount (eeprom s)"
  by (simp add: getCardCount_def pushLog_eeprom_low LOG_START_ADDR_def CARD_START_ADDR_def)


lemma relay_byte_count: "getCardCount (writeEEPROMRelayState addr st e) = getCardCount e"
  by (simp add: getCardCount_def writeEEPROMRelayState_def)

lemma processUID_capacity:
  assumes "getCardCount (eeprom s) \<le> MAX_CARDS_eeprom"
  shows "getCardCount (eeprom (processUID u c s)) \<le> MAX_CARDS_eeprom"
proof -
  have a: "getCardCount e' \<le> MAX_CARDS_eeprom" if "addCard u (eeprom s) = (e', r)" for e' r
    using addCard_capacity [OF assms, of u] that by simp
  have b: "getCardCount e' \<le> MAX_CARDS_eeprom" if "removeCard u (eeprom s) = (e', r)" for e' r
    using removeCard_capacity [OF assms, of u] that by simp
  from assms a b show ?thesis
    by (auto simp: processUID_def Let_def pushLog_count setRelay9_def emit_eeprom_def
        relay_byte_count split: prod.splits)
qed

lemma loop_eeprom_capacity:
  assumes "getCardCount (eeprom s) \<le> MAX_CARDS_eeprom"
  shows "getCardCount (eeprom (loop_eeprom clk scan s)) \<le> MAX_CARDS_eeprom"
proof -
  define s1 where "s1 = loop_report clk s"
  define s2 where "s2 = (case scan of None \<Rightarrow> s1 | Some (u, c) \<Rightarrow> processUID u c s1)"
  define s3 where "s3 = loop_timeout_eeprom (clk 2) s2"
  have e: "loop_eeprom clk scan s = loop_relay9 (clk 3) s3"
    unfolding loop_eeprom_def Let_def s1_def s2_def s3_def by (rule refl)
  have 1: "getCardCount (eeprom s1) \<le> MAX_CARDS_eeprom"
    using assms by (simp add: s1_def loop_report_def emit_eeprom_def)
  have 2: "getCardCount (eeprom s2) \<le> MAX_CARDS_eeprom"
  proof (cases scan)
    case None
    with 1 show ?thesis by (simp add: s2_def)
  next
    case (Some p)
    obtain u c where "p = (u, c)" by (cases p)
    with Some processUID_capacity [OF 1, of u c] show ?thesis by (simp add: s2_def)
  qed
  have 3: "getCardCount (eeprom s3) \<le> MAX_CARDS_eeprom"
    using 2 by (simp add: s3_def loop_timeout_eeprom_def emit_eeprom_def)
  then show ?thesis
    by (simp add: e loop_relay9_def setRelay9_def emit_eeprom_def relay_byte_count)
qed

lemma step_eeprom_capacity:
  assumes "getCardCount (eeprom s) \<le> MAX_CARDS_eeprom"
  shows "getCardCount (eeprom (step_eeprom r s)) \<le> MAX_CARDS_eeprom"
proof (cases r)
  case (Write_eeprom dev pname val t)
  with assms show ?thesis
    by (simp add: write_callback_eeprom_def Let_def emit_eeprom_def setRelay_eeprom_def
        relay_byte_count split: option.splits)
next
  case (Pass_eeprom clk scan)
  with loop_eeprom_capacity [OF assms] show ?thesis by simp
qed

lemma restore_fold_count:
  "getCardCount (eeprom (fold restore_relay xs s)) = getCardCount (eeprom s)"
  by (induction xs arbitrary: s)
     (simp_all add: restore_relay_def setRelay_eeprom_def emit_eeprom_def Let_def relay_byte_count)

lemma power_up_eeprom_capacity: "getCardCount (eeprom (power_up_eeprom e)) \<le> MAX_CARDS_eeprom"
  by (simp add: power_up_eeprom_def Let_def emit_eeprom_def setRelay9_def relay_byte_count
      restore_fold_count ensureEepromInitialized_def getCardCount_set)

lemma run_eeprom_capacity:
  "getCardCount (eeprom (run_eeprom rs (power_up_eeprom e))) \<le> MAX_CARDS_eeprom"
proof -
  have "getCardCount (eeprom s) \<le> MAX_CARDS_eeprom \<Longrightarrow>
        getCardCount (eeprom (fold step_eeprom rs s)) \<le> MAX_CARDS_eeprom" for s
  proof (induction rs arbitrary: s)
    case Nil
    then show ?case by simp
  next
    case (Cons r rs)
    from Cons.IH [OF step_eeprom_capacity [OF Cons.prems]] show ?case by simp
  qed
  from this [OF power_up_eeprom_capacity] show ?thesis by (simp add: run_eeprom_def)
qed

lemma write_callback_cards: "cards (write_callback v dev pname b t s) = cards s"
  by (simp add: write_callback_def emit_def enterAddMode_def enterRemoveMode_def updateStatus_def
      exitToNormal_cards pulseRelayAutoOff_def setRelay_def Let_def split: option.splits)

lemma loop_scan_capacity:
  assumes "length (cards s) \<le> MAX_CARDS"
  shows "length (cards (loop_scan v u clk s)) \<le> MAX_CARDS"
proof -
  have r: "length (cards (scan_remove u s)) \<le> length (cards s)"
    by (simp add: scan_remove_def Let_def updateListCardsParam_def updateLastAccessParam_def
        emit_def min_def)
  have n: "cards (scan_normal v u clk s) = cards s"
    by (simp add: scan_normal_def Let_def mask_test_pow pulse_fold updateLastAccessParam_def emit_def)
  from assms r n show ?thesis
    by (auto simp: loop_scan_def exitToNormal_cards scan_add_cards)
qed

lemma step_capacity:
  assumes "length (cards s) \<le> MAX_CARDS"
  shows "length (cards (step v r s)) \<le> MAX_CARDS"
proof (cases r)
  case (Write dev pname b t)
  with assms show ?thesis by (simp add: write_callback_cards)
next
  case (Pass now scan)
  have "length (cards (loop_timeout v now (loop_sweep v now s))) \<le> MAX_CARDS"
    using assms by (simp add: loop_timeout_def exitToNormal_cards loop_sweep_eq)
  with Pass loop_scan_capacity show ?thesis
    by (cases scan) (auto simp: loop_def Let_def)
qed

lemma load_fold_length:
  "length (fold (\<lambda>i cs. let u = getString p (key_u i) []; m = getUChar p (key_m i) 0
                        in if length u \<noteq> 0 then cs @ [\<lparr>uid = u, mask = m\<rparr>] else cs) xs acc)
     \<le> length acc + length xs"
proof (induction xs arbitrary: acc)
  case Nil
  then show ?case by simp
next
  case (Cons x xs)
  show ?case
  proof (cases "getString p (key_u x) [] = []")
    case True
    with Cons [of acc] show ?thesis by (simp add: Let_def)
  next
    case False
    with Cons [of "acc @ [\<lparr>uid = getString p (key_u x) [], mask = getUChar p (key_m x) 0\<rparr>]"]
    show ?thesis by (simp add: Let_def)
  qed
qed

lemma load_capacity: "length (loadCardsFromNVS p) \<le> MAX_CARDS"
proof -
  have "length (loadCardsFromNVS p) \<le> min (unat (getUShort p NVS_KEY_COUNT 0)) MAX_CARDS"
    unfolding loadCardsFromNVS_def Let_def
    using load_fold_length [of p "[0..<min (unat (getUShort p NVS_KEY_COUNT 0)) MAX_CARDS]" "[]"]
    by (simp add: Let_def)
  then show ?thesis by simp
qed

lemma setRelay_fold_cards: "cards (fold (\<lambda>i q. setRelay v i False q) xs s) = cards s"
  by (induction xs arbitrary: s) (simp_all add: setRelay_def emit_def)

lemma run_capacity: "length (cards (run v rs (power_up v p))) \<le> MAX_CARDS"
proof -
  have "length (cards s) \<le> MAX_CARDS \<Longrightarrow> length (cards (fold (step v) rs s)) \<le> MAX_CARDS" for s
  proof (induction rs arbitrary: s)
    case Nil
    then show ?case by simp
  next
    case (Cons r rs)
    from Cons.IH [OF step_capacity [OF Cons.prems]] show ?case by simp
  qed
  moreover have "length (cards (power_up v p)) \<le> MAX_CARDS"
    by (simp add: power_up_def updateListCardsParam_def emit_def setRelay_fold_cards load_capacity)
  ultimately show ?thesis by (simp add: run_def)
qed

lemma processUID_full:
  assumes "rfidAddMode m" "u \<noteq> []" "findCardIndex_eeprom (eeprom m) u < 0"
    "getCardCount (eeprom m) \<ge> MAX_CARDS_eeprom"
  shows "eeprom (processUID u c m) = eeprom m \<and> \<not> rfidAddMode (processUID u c m) \<and>
         logCount (processUID u c m) = logCount m \<and>
         sent (processUID u c m) = sent m @ buzz 2 300 @
           [Report RFID_MANAGER_NAME ''Mode'' (PInt 0),
            Report RFID_MANAGER_NAME ''LastAccess''
              (PStr (''UID: '' @ u @ '' | '' @ dec (unat (c 2 div 1000)))),
            Report RFID_MANAGER_NAME ''CardCount'' (PInt (int (getCardCount (eeprom m)))),
            Report RFID_MANAGER_NAME ''CardList'' (PStr (buildCardListJSON (eeprom m)))]"
  using assms addCard_full [OF assms(4,3)]
  by (simp add: processUID_def Let_def emit_eeprom_def)

text \<open>
  C1, the code at the failing input. In both NVS sketches a scan in add mode of an
  identifier that is not in the registry gives the same feedback whether or not there
  is room for it: the last-access report says granted with the staged mask and the
  add pattern is sounded. With the registry at \<open>MAX_CARDS\<close> the card list is unchanged,
  and nothing tells the rejection from a successful enrolment. (The registry never
  exceeds its capacity, \<open>run_capacity\<close> and \<open>run_eeprom_capacity\<close>, and the EEPROM
  sketch answers the same scan with the denial pattern, \<open>processUID_full\<close>.)
\<close>

theorem full_registry_enroll_reports_success:
  assumes "addMode s" and "u \<notin> uid ` set (cards s)"
  shows "let s' = loop_scan v u clk s in
           cards s' = (if length (cards s) < MAX_CARDS
                       then cards s @ [\<lparr>uid = u, mask = currentMarkMask (mark s)\<rparr>]
                       else cards s) \<and>
           \<not> addMode s' \<and> \<not> removeMode s' \<and>
           trace s' = trace s @ [Report rfid_dev P_LISTCARDS (PStr (buildListCardsText (cards s'))),
                                 ReportLastAccess u True (currentMarkMask (mark s))]
                        @ buzzer_add @ exit_reports
                        @ (case v of Cloud \<Rightarrow> mark_reports Cloud | Single \<Rightarrow> [])"
proof -
  from assms(2) findCardIndex_neg [of "cards s" u] have "\<not> findCardIndex (cards s) u \<ge> 0" by simp
  with assms(1) show ?thesis
    by (simp add: loop_scan_def exitToNormal_eq scan_add_def Let_def updateListCardsParam_def
        updateLastAccessParam_def emit_def)
qed

lemma full_example_facts:
  "addMode full_example" "length (cards full_example) = MAX_CARDS"
  "''DEADBEEF'' \<notin> uid ` set (cards full_example)"
  "currentMarkMask (mark full_example) = 4" "trace full_example = trace (staged Cloud)"
  using staged_Cloud staged_marks
  by (auto simp: full_example_def MAX_CARDS_def)

text \<open>Witness for C1: 64 cards enrolled, add mode, a 65th identifier scanned.\<close>

theorem full_registry_enroll_reports_success_witness:
  "length (cards full_example) = MAX_CARDS \<and>
   cards (loop_scan Cloud ''DEADBEEF'' (\<lambda>_. 0) full_example) = cards full_example \<and>
   trace (loop_scan Cloud ''DEADBEEF'' (\<lambda>_. 0) full_example) =
     trace full_example @ [Report rfid_dev P_LISTCARDS (PStr (buildListCardsText (cards full_example))),
                           ReportLastAccess ''DEADBEEF'' True 4]
       @ buzzer_add @ exit_reports @ mark_reports Cloud"
  using full_registry_enroll_reports_success [OF full_example_facts(1,3), of Cloud "\<lambda>_. 0"]
    full_example_facts(2,4)
  by (simp add: Let_def)


section \<open>Identifiers longer than a slot\<close>

lemma readBytes_length: "length (readBytes e a n) \<le> n"
  by (induction n arbitrary: a) (simp_all add: Let_def)

lemma readCardSlot_length: "length (readCardSlot i e) \<le> CARD_SLOT_BYTES"
  by (simp add: readCardSlot_def readBytes_length)

lemma long_not_found:
  assumes "length u > CARD_SLOT_BYTES"
  shows "findCardIndex_eeprom e u = - 1"
proof -
  have "readCardSlot i e \<noteq> u" for i
    using readCardSlot_length [of i e] assms by auto
  then have "List.find (\<lambda>i. readCardSlot i e = u) [0..<getCardCount e] = None"
    by (simp add: find_None_iff)
  then show ?thesis by (simp add: findCardIndex_eeprom_def)
qed

lemma char_byte: "char_of (unat (of_char c :: u8)) = c"
proof -
  have "(of_char c :: u8) = of_nat (of_char c)" by (simp add: of_nat_of_char)
  then show ?thesis by (simp add: unat_of_nat)
qed

lemma readBytes_nonzero:
  "\<forall>i<n. e (a + i) \<noteq> 0 \<Longrightarrow> readBytes e a n = map (\<lambda>i. char_of (unat (e (a + i)))) [0..<n]"
proof (induction n arbitrary: a)
  case 0
  then show ?case by simp
next
  case (Suc n)
  from Suc.prems have 0: "e a \<noteq> 0" by (metis add.right_neutral zero_less_Suc)
  from Suc.prems have "\<forall>i<n. e (Suc a + i) \<noteq> 0" by auto
  from Suc.IH [OF this] have "readBytes e (Suc a) n = map (\<lambda>i. char_of (unat (e (Suc a + i)))) [0..<n]" .
  with 0 show ?case
    by (simp add: Let_def upt_conv_Cons map_Suc_upt [symmetric] del: upt_Suc)
qed

lemma read_after_store:
  assumes "length u \<ge> CARD_SLOT_BYTES" "(0::u8) \<notin> of_char ` set (take CARD_SLOT_BYTES u)"
  shows "readCardSlot idx (storeCardSlot idx u e) = take CARD_SLOT_BYTES u"
proof -
  let ?b = "CARD_START_ADDR + idx * CARD_SLOT_BYTES"
  have at: "storeCardSlot idx u e (?b + i) = of_char (u ! i)" if "i < CARD_SLOT_BYTES" for i
    using that assms(1) by (simp add: storeCardSlot_at Let_def)
  have nz: "\<forall>i<CARD_SLOT_BYTES. storeCardSlot idx u e (?b + i) \<noteq> 0"
  proof (intro allI impI)
    fix i assume i: "i < CARD_SLOT_BYTES"
    with assms(1) have "u ! i \<in> set (take CARD_SLOT_BYTES u)"
      by (metis in_set_conv_nth length_take min.absorb2 nth_take)
    with assms(2) have "(of_char (u ! i) :: u8) \<noteq> 0" by force
    with at [OF i] show "storeCardSlot idx u e (?b + i) \<noteq> 0" by simp
  qed
  have "readCardSlot idx (storeCardSlot idx u e)
          = map (\<lambda>i. char_of (unat (storeCardSlot idx u e (?b + i)))) [0..<CARD_SLOT_BYTES]"
    unfolding readCardSlot_def by (rule readBytes_nonzero [OF nz])
  also have "\<dots> = map (\<lambda>i. u ! i) [0..<CARD_SLOT_BYTES]"
    by (rule map_cong) (simp_all add: at char_byte)
  also have "\<dots> = take CARD_SLOT_BYTES u"
    using assms(1) by (intro nth_equalityI) simp_all
  finally show ?thesis .
qed


lemma readBytes_cong:
  "\<forall>i<n. e (a + i) = e' (a + i) \<Longrightarrow> readBytes e a n = readBytes e' a n"
proof (induction n arbitrary: a)
  case 0
  then show ?case by simp
next
  case (Suc n)
  from Suc.prems have 0: "e a = e' a" by (metis add.right_neutral zero_less_Suc)
  from Suc.prems have "\<forall>i<n. e (Suc a + i) = e' (Suc a + i)" by auto
  from Suc.IH [OF this] 0 show ?case by (simp add: Let_def)
qed

lemma readCardSlot_setCardCount: "readCardSlot idx (setCardCount c e) = readCardSlot idx e"
  unfolding readCardSlot_def
  by (rule readBytes_cong) (simp add: setCardCount_def CARD_START_ADDR_def)

lemma slot_bytes_after_store:
  "length u \<ge> CARD_SLOT_BYTES \<Longrightarrow>
   map (setCardCount c (storeCardSlot idx u e))
       [CARD_START_ADDR + idx * CARD_SLOT_BYTES ..< CARD_START_ADDR + idx * CARD_SLOT_BYTES + CARD_SLOT_BYTES]
     = map of_char (take CARD_SLOT_BYTES u)"
proof (rule nth_equalityI)
  assume len: "length u \<ge> CARD_SLOT_BYTES"
  let ?b = "CARD_START_ADDR + idx * CARD_SLOT_BYTES"
  show "length (map (setCardCount c (storeCardSlot idx u e)) [?b..<?b + CARD_SLOT_BYTES])
          = length (map of_char (take CARD_SLOT_BYTES u) :: u8 list)"
    using len by simp
  fix i assume "i < length (map (setCardCount c (storeCardSlot idx u e)) [?b..<?b + CARD_SLOT_BYTES])"
  then have i: "i < CARD_SLOT_BYTES" by simp
  have "setCardCount c x a = x a" if "a \<noteq> 0" for x a
    using that by (simp add: setCardCount_def)
  then have "setCardCount c (storeCardSlot idx u e) (?b + i) = storeCardSlot idx u e (?b + i)"
    by (simp add: CARD_START_ADDR_def)
  also have "\<dots> = of_char (u ! i)"
    using i len by (simp add: storeCardSlot_at Let_def)
  finally show "map (setCardCount c (storeCardSlot idx u e)) [?b..<?b + CARD_SLOT_BYTES] ! i
                  = map of_char (take CARD_SLOT_BYTES u) ! i"
    using i len by (simp del: upt_Suc)
qed

text \<open>
  C10. In the EEPROM sketch an identifier longer than \<open>CARD_SLOT_BYTES\<close> (16) characters
  is never found, in any EEPROM state, so it can never be removed. While there is room,
  \<^verbatim>\<open>addCard\<close> succeeds on it: it returns the old count as index, raises the count by one
  and fills the slot with the first 16 characters only (read back, the slot gives these
  16 characters when none of them is the zero byte); after that the identifier is still
  not found and not removable. A scan of it in Normal mode is logged as denied (event 2)
  with the denial beeps and leaves the ninth relay as it was.
\<close>

theorem long_identifier_unmatchable:
  assumes "length u > CARD_SLOT_BYTES"
  shows "findCardIndex_eeprom e u = - 1 \<and> removeCard u e = (e, False) \<and>
         (getCardCount e < MAX_CARDS_eeprom \<longrightarrow>
            (let e' = fst (addCard u e); cnt = getCardCount e;
                 base = CARD_START_ADDR + cnt * CARD_SLOT_BYTES
             in snd (addCard u e) = int cnt \<and> getCardCount e' = cnt + 1 \<and>
                map e' [base..<base + CARD_SLOT_BYTES] = map of_char (take CARD_SLOT_BYTES u) \<and>
                ((0::u8) \<notin> of_char ` set (take CARD_SLOT_BYTES u) \<longrightarrow>
                   readCardSlot cnt e' = take CARD_SLOT_BYTES u) \<and>
                findCardIndex_eeprom e' u = - 1 \<and> removeCard u e' = (e', False))) \<and>
         (\<not> rfidAddMode m \<and> \<not> rfidRemoveMode m \<longrightarrow>
            (let m' = processUID u c m
             in relay9_state m' = relay9_state m \<and> event (logs m' (logPos m)) = 2 \<and>
                filter is_beep (drop (length (sent m)) (sent m')) = filter is_beep (buzz 2 300)))"
proof -
  have nf: "findCardIndex_eeprom x u = - 1" for x
    by (rule long_not_found [OF assms])
  have rm: "removeCard u x = (x, False)" for x
    by (simp add: removeCard_def nf)
  have ne: "u \<noteq> []" using assms by auto
  have add: "getCardCount e < MAX_CARDS_eeprom \<longrightarrow>
            (let e' = fst (addCard u e); cnt = getCardCount e;
                 base = CARD_START_ADDR + cnt * CARD_SLOT_BYTES
             in snd (addCard u e) = int cnt \<and> getCardCount e' = cnt + 1 \<and>
                map e' [base..<base + CARD_SLOT_BYTES] = map of_char (take CARD_SLOT_BYTES u) \<and>
                ((0::u8) \<notin> of_char ` set (take CARD_SLOT_BYTES u) \<longrightarrow>
                   readCardSlot cnt e' = take CARD_SLOT_BYTES u) \<and>
                findCardIndex_eeprom e' u = - 1 \<and> removeCard u e' = (e', False))"
  proof
    assume room: "getCardCount e < MAX_CARDS_eeprom"
    let ?cnt = "getCardCount e"
    have a: "addCard u e = (setCardCount (?cnt + 1) (storeCardSlot ?cnt u e), int ?cnt)"
      using room ne by (simp add: addCard_def nf Let_def)
    have c: "getCardCount (setCardCount (?cnt + 1) (storeCardSlot ?cnt u e)) = ?cnt + 1"
      using room by (intro getCardCount_set) (simp add: MAX_CARDS_eeprom_def)
    have len: "length u \<ge> CARD_SLOT_BYTES" using assms by simp
    show "let e' = fst (addCard u e); cnt = getCardCount e;
                 base = CARD_START_ADDR + cnt * CARD_SLOT_BYTES
             in snd (addCard u e) = int cnt \<and> getCardCount e' = cnt + 1 \<and>
                map e' [base..<base + CARD_SLOT_BYTES] = map of_char (take CARD_SLOT_BYTES u) \<and>
                ((0::u8) \<notin> of_char ` set (take CARD_SLOT_BYTES u) \<longrightarrow>
                   readCardSlot cnt e' = take CARD_SLOT_BYTES u) \<and>
                findCardIndex_eeprom e' u = - 1 \<and> removeCard u e' = (e', False)"
      unfolding Let_def a fst_conv snd_conv
      using c slot_bytes_after_store [OF len, of "?cnt + 1" ?cnt e] read_after_store [OF len, of ?cnt e]
      by (simp add: nf rm readCardSlot_setCardCount)
  qed
  have deny: "\<not> rfidAddMode m \<and> \<not> rfidRemoveMode m \<longrightarrow>
            (let m' = processUID u c m
             in relay9_state m' = relay9_state m \<and> event (logs m' (logPos m)) = 2 \<and>
                filter is_beep (drop (length (sent m)) (sent m')) = filter is_beep (buzz 2 300))"
    using ne
    by (simp add: processUID_def nf Let_def emit_eeprom_def pushLog_keeps)
       (simp add: pushLog_def Let_def)
  from nf rm add deny show ?thesis by blast
qed

text \<open>Witness for C10: a 20-character identifier (a 10-byte UID) added to a blank EEPROM.\<close>

theorem long_identifier_unmatchable_witness:
  "length ''04A1B2C3D4E5F6071829'' > CARD_SLOT_BYTES \<and>
   getCardCount (fst (addCard ''04A1B2C3D4E5F6071829'' blank)) = 1 \<and>
   readCardSlot 0 (fst (addCard ''04A1B2C3D4E5F6071829'' blank)) = ''04A1B2C3D4E5F607'' \<and>
   findCardIndex_eeprom (fst (addCard ''04A1B2C3D4E5F6071829'' blank)) ''04A1B2C3D4E5F6071829'' = - 1"
proof -
  let ?u = "''04A1B2C3D4E5F6071829''"
  have h: "length ?u > CARD_SLOT_BYTES" by (simp add: CARD_SLOT_BYTES_def)
  have c: "getCardCount blank = 0" by (simp add: blank_def getCardCount_def)
  have nz: "(0::u8) \<notin> of_char ` set (take CARD_SLOT_BYTES ?u)"
    by (simp add: CARD_SLOT_BYTES_def)
  have t: "take CARD_SLOT_BYTES ?u = ''04A1B2C3D4E5F607''" by (simp add: CARD_SLOT_BYTES_def)
  from long_identifier_unmatchable [OF h, of blank, THEN conjunct2, THEN conjunct2, THEN conjunct1]
    c nz t h
  show ?thesis by (simp add: Let_def MAX_CARDS_eeprom_def)
qed


section \<open>Persistence round trip\<close>

lemma key_u_inj: "key_u i = key_u j \<Longrightarrow> i = j"
  by (simp add: key_u_def fmt02_inj)

lemma key_m_inj: "key_m i = key_m j \<Longrightarrow> i = j"
  by (simp add: key_m_def fmt02_inj)

lemma key_distinct [simp]:
  "key_u i \<noteq> key_m j" "key_m j \<noteq> key_u i"
  "key_u i \<noteq> NVS_KEY_COUNT" "key_m i \<noteq> NVS_KEY_COUNT"
  "NVS_KEY_COUNT \<noteq> key_u i" "NVS_KEY_COUNT \<noteq> key_m i"
  by (simp_all add: key_u_def key_m_def NVS_KEY_COUNT_def)

lemma put_fold_other:
  "\<forall>i \<in> set xs. k \<noteq> key_u i \<and> k \<noteq> key_m i \<Longrightarrow>
   fold (\<lambda>i q. putUChar (key_m i) (mask (cs ! i)) (putString (key_u i) (uid (cs ! i)) q)) xs p k = p k"
  by (induction xs arbitrary: p) (auto simp: putUChar_def putString_def)

lemma put_fold_u:
  "i \<in> set xs \<Longrightarrow>
   fold (\<lambda>i q. putUChar (key_m i) (mask (cs ! i)) (putString (key_u i) (uid (cs ! i)) q)) xs p (key_u i)
     = Some (Str (uid (cs ! i)))"
proof (induction xs arbitrary: p rule: rev_induct)
  case Nil
  then show ?case by simp
next
  case (snoc x xs)
  show ?case
  proof (cases "x = i")
    case True
    then show ?thesis by (simp add: putUChar_def putString_def)
  next
    case False
    with snoc.prems have "i \<in> set xs" by simp
    from snoc.IH [OF this] False show ?thesis
      by (auto simp: putUChar_def putString_def dest: key_u_inj)
  qed
qed

lemma put_fold_m:
  "i \<in> set xs \<Longrightarrow>
   fold (\<lambda>i q. putUChar (key_m i) (mask (cs ! i)) (putString (key_u i) (uid (cs ! i)) q)) xs p (key_m i)
     = Some (UChar (mask (cs ! i)))"
proof (induction xs arbitrary: p rule: rev_induct)
  case Nil
  then show ?case by simp
next
  case (snoc x xs)
  show ?case
  proof (cases "x = i")
    case True
    then show ?thesis by (simp add: putUChar_def putString_def)
  next
    case False
    with snoc.prems have "i \<in> set xs" by simp
    from snoc.IH [OF this] False show ?thesis
      by (auto simp: putUChar_def putString_def dest: key_m_inj)
  qed
qed

lemma remove_fold_other:
  "\<forall>i \<in> set xs. k \<noteq> key_u i \<and> k \<noteq> key_m i \<Longrightarrow>
   fold (\<lambda>i q. remove_key (key_m i) (remove_key (key_u i) q)) xs p k = p k"
  by (induction xs arbitrary: p) (auto simp: remove_key_def)

lemma saved:
  "getUShort (saveCardsToNVS cs p) NVS_KEY_COUNT 0 = of_nat (min (length cs) MAX_CARDS)"
  "i < min (length cs) MAX_CARDS \<Longrightarrow> getString (saveCardsToNVS cs p) (key_u i) [] = uid (cs ! i)"
  "i < min (length cs) MAX_CARDS \<Longrightarrow> getUChar (saveCardsToNVS cs p) (key_m i) 0 = mask (cs ! i)"
proof -
  let ?cnt = "min (length cs) MAX_CARDS"
  let ?prev = "unat (getUShort p NVS_KEY_COUNT 0)"
  let ?put = "\<lambda>i q. putUChar (key_m i) (mask (cs ! i)) (putString (key_u i) (uid (cs ! i)) q)"
  let ?rem = "\<lambda>i q. remove_key (key_m i) (remove_key (key_u i) q)"
  let ?p1 = "putUShort NVS_KEY_COUNT (of_nat ?cnt) p"
  have c: "(if length cs > MAX_CARDS then MAX_CARDS else length cs) = ?cnt" by (simp add: min_def)
  have s: "saveCardsToNVS cs p = fold ?rem [?cnt..<?prev] (fold ?put [0..<?cnt] ?p1)"
    unfolding saveCardsToNVS_def Let_def c by (rule refl)
  have "saveCardsToNVS cs p NVS_KEY_COUNT = ?p1 NVS_KEY_COUNT"
    unfolding s by (simp add: remove_fold_other put_fold_other)
  then show "getUShort (saveCardsToNVS cs p) NVS_KEY_COUNT 0 = of_nat ?cnt"
    by (simp add: getUShort_def putUShort_def)
  {
    assume i: "i < ?cnt"
    have ru: "\<forall>j \<in> set [?cnt..<?prev]. key_u i \<noteq> key_u j \<and> key_u i \<noteq> key_m j"
      using i by (auto dest!: key_u_inj simp del: min_less_iff_conj)
    have rm: "\<forall>j \<in> set [?cnt..<?prev]. key_m i \<noteq> key_u j \<and> key_m i \<noteq> key_m j"
      using i by (auto dest!: key_m_inj simp del: min_less_iff_conj)
    from i have mem: "i \<in> set [0..<?cnt]" by simp
    show "getString (saveCardsToNVS cs p) (key_u i) [] = uid (cs ! i)"
      unfolding s getString_def remove_fold_other [OF ru] put_fold_u [OF mem] by simp
    show "getUChar (saveCardsToNVS cs p) (key_m i) 0 = mask (cs ! i)"
      unfolding s getUChar_def remove_fold_other [OF rm] put_fold_m [OF mem] by simp
  }
qed

lemma load_fold:
  "\<forall>i \<in> set xs. getString p (key_u i) [] = uid (cs ! i) \<and>
                 getUChar p (key_m i) 0 = mask (cs ! i) \<Longrightarrow>
   fold (\<lambda>i cs. let u = getString p (key_u i) []; m = getUChar p (key_m i) 0
                in if length u \<noteq> 0 then cs @ [\<lparr>uid = u, mask = m\<rparr>] else cs) xs acc
     = acc @ filter (\<lambda>c. uid c \<noteq> []) (map (\<lambda>i. cs ! i) xs)"
  by (induction xs arbitrary: acc) (simp_all add: Let_def)

lemma roundtrip_general:
  "loadCardsFromNVS (saveCardsToNVS cs p) = filter (\<lambda>c. uid c \<noteq> []) (take MAX_CARDS cs)"
proof -
  let ?q = "saveCardsToNVS cs p" and ?cnt = "min (length cs) MAX_CARDS"
  have n: "unat (of_nat ?cnt :: u16) = ?cnt"
    by (simp add: unat_of_nat MAX_CARDS_def min_def)
  have cnt: "min (unat (getUShort ?q NVS_KEY_COUNT 0)) MAX_CARDS = ?cnt"
    by (simp add: saved(1) n)
  have each: "\<forall>i \<in> set [0..<?cnt]. getString ?q (key_u i) [] = uid (cs ! i) \<and>
               getUChar ?q (key_m i) 0 = mask (cs ! i)"
    using saved(2,3) [of _ cs p] by simp
  have "loadCardsFromNVS ?q = [] @ filter (\<lambda>c. uid c \<noteq> []) (map (\<lambda>i. cs ! i) [0..<?cnt])"
    unfolding loadCardsFromNVS_def Let_def cnt
    using load_fold [OF each, of "[]"] by (simp add: Let_def)
  moreover have "map (\<lambda>i. cs ! i) [0..<?cnt] = take MAX_CARDS cs"
    by (intro nth_equalityI) simp_all
  ultimately show ?thesis by simp
qed

lemma roundtrip_list:
  assumes "length cs \<le> MAX_CARDS" and "\<forall>c \<in> set cs. uid c \<noteq> []"
  shows "loadCardsFromNVS (saveCardsToNVS cs p) = cs"
  using assms by (simp add: roundtrip_general filter_id_conv)

text \<open>
  C8 (as amended). Saving a registry over any previous content of the store and loading
  it again gives back, in order, the cards among the first \<open>MAX_CARDS\<close> whose
  identifier is not empty: \<^verbatim>\<open>saveCardsToNVS\<close> writes at most \<open>MAX_CARDS\<close> entries and
  \<^verbatim>\<open>loadCardsFromNVS\<close> skips an entry with a zero-length identifier. So a registry within
  capacity whose identifiers are all non-empty comes back as the same list, hence as the
  same set of (identifier, mask) pairs.
\<close>

theorem save_load_roundtrip:
  "loadCardsFromNVS (saveCardsToNVS cs p) = filter (\<lambda>c. uid c \<noteq> []) (take MAX_CARDS cs) \<and>
   (length cs \<le> MAX_CARDS \<and> (\<forall>c \<in> set cs. uid c \<noteq> []) \<longrightarrow>
      loadCardsFromNVS (saveCardsToNVS cs p) = cs \<and>
      set (map (\<lambda>c. (uid c, mask c)) (loadCardsFromNVS (saveCardsToNVS cs p)))
        = set (map (\<lambda>c. (uid c, mask c)) cs))"
  using roundtrip_general [of cs p] roundtrip_list [of cs p] by simp

text \<open>Witness for C8: three cards saved to an empty store and loaded again.\<close>

theorem save_load_roundtrip_witness:
  "loadCardsFromNVS (saveCardsToNVS three_cards Map.empty) = three_cards"
proof -
  have 1: "length three_cards \<le> MAX_CARDS" by (simp add: three_cards_def MAX_CARDS_def)
  have 2: "\<forall>c \<in> set three_cards. uid c \<noteq> []" by (simp add: three_cards_def)
  from save_load_roundtrip [of three_cards Map.empty] 1 2 show ?thesis by blast
qed

text \<open>
  Counterexample to C8 as stated: the cloud sketch in add mode enrols a scanned
  zero-length identifier (with the staged mask 4) and persists the registry; loading
  the store gives the empty registry, so the pair is lost in the round trip.
\<close>

theorem empty_uid_lost_on_reload:
  "cards (loop_scan Cloud [] (\<lambda>_. 0) (staged Cloud)) = [\<lparr>uid = [], mask = 4\<rparr>] \<and>
   loadCardsFromNVS (prefs (loop_scan Cloud [] (\<lambda>_. 0) (staged Cloud))) = []"
proof -
  have c: "cards (staged Cloud) = []"
    by (simp add: staged_def eval_write)
  have a: "cards (scan_add [] (staged Cloud)) = [\<lparr>uid = [], mask = 4\<rparr>]"
    by (simp add: scan_add_cards c findCardIndex_def staged_marks MAX_CARDS_def)
  have p: "prefs (scan_add [] (staged Cloud))
             = saveCardsToNVS (cards (scan_add [] (staged Cloud))) (prefs (staged Cloud))"
    by (simp add: scan_add_def Let_def updateListCardsParam_def updateLastAccessParam_def emit_def)
  from a p staged_Cloud show ?thesis
    by (simp add: loop_scan_def exitToNormal_cards roundtrip_general MAX_CARDS_def)
qed

text \<open>
  Write-through: from power-up on, as long as the reader delivers no empty identifier,
  the registry stays within capacity, free of empty identifiers, and equal to what the
  store would load.
\<close>

lemma load_fold_nonempty:
  "list_all (\<lambda>c. uid c \<noteq> []) acc \<Longrightarrow>
   list_all (\<lambda>c. uid c \<noteq> [])
     (fold (\<lambda>i cs. let u = getString p (key_u i) []; m = getUChar p (key_m i) 0
                   in if length u \<noteq> 0 then cs @ [\<lparr>uid = u, mask = m\<rparr>] else cs) xs acc)"
  by (induction xs arbitrary: acc) (simp_all add: Let_def)

lemma load_nonempty: "list_all (\<lambda>c. uid c \<noteq> []) (loadCardsFromNVS p)"
  unfolding loadCardsFromNVS_def Let_def
  using load_fold_nonempty [of "[]" p] by (simp add: Let_def)

lemma nonempty_iff: "list_all (\<lambda>c. uid c \<noteq> []) cs = ([] \<notin> uid ` set cs)"
  by (induction cs) auto

lemma mirrored_cong:
  "cards s' = cards s \<Longrightarrow> prefs s' = prefs s \<Longrightarrow> mirrored s' = mirrored s"
  by (simp add: mirrored_def)

lemma write_callback_prefs: "prefs (write_callback v dev pname b t s) = prefs s"
  by (simp add: write_callback_def emit_def enterAddMode_def enterRemoveMode_def updateStatus_def
      exitToNormal_cards pulseRelayAutoOff_def setRelay_def Let_def split: option.splits)

lemma scan_add_mirrored:
  assumes "mirrored s" "u \<noteq> []"
  shows "mirrored (scan_add u s)"
proof -
  let ?cs = "cards (scan_add u s)"
  have p: "prefs (scan_add u s) = saveCardsToNVS ?cs (prefs s)"
    by (simp add: scan_add_def Let_def updateListCardsParam_def updateLastAccessParam_def emit_def)
  have l: "length ?cs \<le> MAX_CARDS"
    using assms(1) by (auto simp: mirrored_def scan_add_cards)
  from assms(1) have old: "[] \<notin> uid ` set (cards s)"
    by (simp add: mirrored_def nonempty_iff)
  have "[] \<notin> uid ` set ?cs"
  proof (cases "findCardIndex (cards s) u \<ge> 0")
    case True
    with old show ?thesis by (simp add: scan_add_cards uid_set_mask_update)
  next
    case False
    with old assms(2) show ?thesis by (auto simp: scan_add_cards)
  qed
  then have n: "\<forall>c \<in> set ?cs. uid c \<noteq> []" by (simp add: nonempty_iff [symmetric] list_all_iff)
  from roundtrip_list [OF l n, of "prefs s"] l n p show ?thesis
    by (simp add: mirrored_def list_all_iff)
qed

lemma scan_remove_mirrored:
  assumes "mirrored s"
  shows "mirrored (scan_remove u s)"
proof (cases "findCardIndex (cards s) u \<ge> 0")
  case True
  let ?i = "nat (findCardIndex (cards s) u)"
  let ?cs = "take ?i (cards s) @ drop (?i + 1) (cards s)"
  have c: "cards (scan_remove u s) = ?cs" and p: "prefs (scan_remove u s) = saveCardsToNVS ?cs (prefs s)"
    using True
    by (simp_all add: scan_remove_def Let_def updateListCardsParam_def updateLastAccessParam_def emit_def)
  have "length ?cs \<le> length (cards s)" by (simp add: min_def)
  with assms have l: "length ?cs \<le> MAX_CARDS" by (simp add: mirrored_def)
  have "set ?cs \<subseteq> set (cards s)"
    by (auto dest: in_set_takeD in_set_dropD)
  with assms have n: "\<forall>c \<in> set ?cs. uid c \<noteq> []"
    by (auto simp: mirrored_def list_all_iff)
  from roundtrip_list [OF l n, of "prefs s"] l n c p show ?thesis
    by (simp add: mirrored_def list_all_iff)
next
  case False
  then have "cards (scan_remove u s) = cards s" "prefs (scan_remove u s) = prefs s"
    by (simp_all add: scan_remove_def Let_def updateLastAccessParam_def emit_def)
  with assms show ?thesis by (simp add: mirrored_def)
qed

lemma loop_scan_mirrored:
  assumes "mirrored s" "u \<noteq> []"
  shows "mirrored (loop_scan v u clk s)"
proof -
  have n: "cards (scan_normal v u clk s) = cards s \<and> prefs (scan_normal v u clk s) = prefs s"
    by (simp add: scan_normal_def Let_def mask_test_pow pulse_fold updateLastAccessParam_def emit_def)
  have x: "mirrored (exitToNormal v f q) = mirrored q" for f q
    by (rule mirrored_cong) (simp_all add: exitToNormal_cards)
  have nm: "mirrored (scan_normal v u clk s)"
    using assms(1) n mirrored_cong [of "scan_normal v u clk s" s] by simp
  show ?thesis
  proof (cases "addMode s")
    case True
    with scan_add_mirrored [OF assms] show ?thesis by (simp add: loop_scan_def x)
  next
    case False
    with scan_remove_mirrored [OF assms(1), of u] nm show ?thesis by (simp add: loop_scan_def x)
  qed
qed

lemma step_mirrored:
  assumes "mirrored s" "scan_nonempty r"
  shows "mirrored (step v r s)"
proof (cases r)
  case (Write dev pname b t)
  with assms show ?thesis
    by (simp add: mirrored_def write_callback_cards write_callback_prefs)
next
  case (Pass now scan)
  have m: "mirrored (loop_timeout v now (loop_sweep v now s))"
    using assms(1) by (simp add: mirrored_def loop_timeout_def exitToNormal_cards loop_sweep_eq)
  show ?thesis
  proof (cases scan)
    case None
    with Pass m show ?thesis by (simp add: loop_def Let_def)
  next
    case (Some p)
    obtain u clk where p: "p = (u, clk)" by (cases p)
    with Some Pass assms(2) have "u \<noteq> []" by simp
    from loop_scan_mirrored [OF m this] Some Pass p show ?thesis by (simp add: loop_def Let_def)
  qed
qed

lemma setRelay_fold_prefs: "prefs (fold (\<lambda>i q. setRelay v i False q) xs s) = prefs s"
  by (induction xs arbitrary: s) (simp_all add: setRelay_def emit_def)

lemma run_mirrors:
  "list_all scan_nonempty rs \<Longrightarrow> mirrored (run v rs (power_up v p))"
proof -
  have "mirrored s \<Longrightarrow> list_all scan_nonempty rs \<Longrightarrow> mirrored (fold (step v) rs s)" for s
  proof (induction rs arbitrary: s)
    case Nil
    then show ?case by simp
  next
    case (Cons r rs)
    from Cons.prems have "mirrored (step v r s)" by (simp add: step_mirrored)
    with Cons show ?case by simp
  qed
  moreover have "mirrored (power_up v p)"
    by (simp add: mirrored_def power_up_def updateListCardsParam_def emit_def setRelay_fold_cards
        setRelay_fold_prefs load_capacity load_nonempty)
  ultimately show "list_all scan_nonempty rs \<Longrightarrow> mirrored (run v rs (power_up v p))"
    by (simp add: run_def)
qed


section \<open>Enrolling an identifier twice\<close>














end
